theory Spec2Isabelle
  imports Complex_Main "HOL-Library.Log_Nat"
begin

section \<open>JSON values and the JavaScript operators of server.js\<close>

text \<open>
  The handlers of \<^verbatim>\<open>server.js\<close> work on values parsed from JSON (request bodies and the
  data files). A value that is absent (\<^verbatim>\<open>undefined\<close>) is \<open>None\<close>; an object is read
  through its property map. A number is a finite one: a JSON literal beyond the range of
  a double, which parses to Infinity and is written back as \<^verbatim>\<open>null\<close>, is not among the
  values.
\<close>

datatype jsval =
    JNull
  | JBool bool
  | JNum rat
  | JStr string
  | JArr "jsval list"
  | JObj "(string \<times> jsval) list"

type_synonym jsobj = "string \<rightharpoonup> jsval"

text \<open>\<^verbatim>\<open>!x\<close> is \<open>\<not> truthy x\<close>.\<close>

fun truthy :: "jsval option \<Rightarrow> bool" where
  "truthy None = False"
| "truthy (Some JNull) = False"
| "truthy (Some (JBool b)) = b"
| "truthy (Some (JNum n)) = (n \<noteq> 0)"
| "truthy (Some (JStr s)) = (s \<noteq> [])"
| "truthy (Some (JArr xs)) = True"
| "truthy (Some (JObj kv)) = True"

text \<open>
  \<^verbatim>\<open>a === b\<close>: primitives are compared by type and value; arrays and objects are compared
  by reference, and two values that come from different parses are never the same
  reference.
\<close>

fun strict_eq :: "jsval option \<Rightarrow> jsval option \<Rightarrow> bool" where
  "strict_eq None None = True"
| "strict_eq (Some JNull) (Some JNull) = True"
| "strict_eq (Some (JBool a)) (Some (JBool b)) = (a = b)"
| "strict_eq (Some (JNum a)) (Some (JNum b)) = (a = b)"
| "strict_eq (Some (JStr a)) (Some (JStr b)) = (a = b)"
| "strict_eq _ _ = False"

text \<open>\<^verbatim>\<open>n.toString()\<close> for a non-negative integer: its decimal digits.\<close>

definition digit_char :: "nat \<Rightarrow> char" where
  "digit_char d = ''0123456789'' ! d"

fun show_nat :: "nat \<Rightarrow> string" where
  "show_nat n = (if n < 10 then [digit_char n] else show_nat (n div 10) @ [digit_char (n mod 10)])"

declare show_nat.simps [simp del]

text \<open>
  Every handler body is wrapped in \<^verbatim>\<open>try { ... } catch\<close> that answers 500, so an
  operator that throws returns \<open>Inl ServerError\<close>. The other errors are the early
  returns of the handlers, each with the HTTP status it sends.
\<close>

datatype error =
    MissingFields
  | TestNotFound
  | AlreadySubmitted
  | UserNotFound
  | UnknownDirection
  | DirectionNotFound
  | DirectionInUseByUsers
  | DirectionInUseByTests
  | DirectionExists
  | LoginTaken
  | TelegramTaken
  | InvalidOrExpired
  | Forbidden
  | ServerError

fun status :: "error \<Rightarrow> nat" where
  "status MissingFields = 400"
| "status TestNotFound = 404"
| "status AlreadySubmitted = 400"
| "status UserNotFound = 404"
| "status UnknownDirection = 400"
| "status DirectionNotFound = 404"
| "status DirectionInUseByUsers = 400"
| "status DirectionInUseByTests = 400"
| "status DirectionExists = 400"
| "status LoginTaken = 400"
| "status TelegramTaken = 400"
| "status InvalidOrExpired = 400"
| "status Forbidden = 403"
| "status ServerError = 500"

text \<open>
  \<^verbatim>\<open>x[i]\<close> for a non-negative integer \<open>i\<close>: an array element, a one-character string, an
  object's property named by the digits of \<open>i\<close>; \<^verbatim>\<open>undefined\<close> out of range and on
  numbers and booleans; a TypeError on \<^verbatim>\<open>null\<close>.
\<close>

fun js_index :: "jsval \<Rightarrow> nat \<Rightarrow> error + jsval option" where
  "js_index JNull i = Inl ServerError"
| "js_index (JBool b) i = Inr None"
| "js_index (JNum n) i = Inr None"
| "js_index (JStr s) i = Inr (if i < length s then Some (JStr [s ! i]) else None)"
| "js_index (JArr xs) i = Inr (if i < length xs then Some (xs ! i) else None)"
| "js_index (JObj kv) i = Inr (map_of kv (show_nat i))"

text \<open>\<^verbatim>\<open>x.length\<close> on a value that is not \<^verbatim>\<open>null\<close>.\<close>

fun js_length :: "jsval \<Rightarrow> jsval option" where
  "js_length (JStr s) = Some (JNum (of_nat (length s)))"
| "js_length (JArr xs) = Some (JNum (of_nat (length xs)))"
| "js_length (JObj kv) = map_of kv ''length''"
| "js_length _ = None"

text \<open>
  \<^verbatim>\<open>{...q}\<close>: the own enumerable properties of \<open>q\<close>. An object gives its properties, an
  array and a string their index properties, any other value none.
\<close>

fun spread :: "jsval \<Rightarrow> jsobj" where
  "spread (JObj kv) = map_of kv"
| "spread (JArr xs) = map_of (zip (map show_nat [0..<length xs]) xs)"
| "spread (JStr s) = map_of (zip (map show_nat [0..<length s]) (map (\<lambda>c. JStr [c]) s))"
| "spread _ = Map.empty"

section \<open>JavaScript numbers\<close>

text \<open>
  A JavaScript number is an IEEE 754 double. \<open>round53\<close> rounds a positive rational to
  the nearest double, ties to the even significand: \<open>expo x\<close> is the binary exponent of
  \<open>x\<close>, and the significand keeps 53 bits. The operands here are array lengths and
  counts below them and their quotient times 100, all inside the normal range, so
  subnormals and overflow are left out.
\<close>

definition rne :: "rat \<Rightarrow> int" where
  "rne y = (let f = \<lfloor>y\<rfloor>; d = y - of_int f in
            if d < 1/2 then f else if 1/2 < d then f + 1
            else if even f then f else f + 1)"

definition expo :: "rat \<Rightarrow> int" where
  "expo x = (if 1 \<le> x then bitlen \<lfloor>x\<rfloor> - 1
             else (let l = bitlen \<lfloor>1 / x\<rfloor> in if 2 powi (1 - l) \<le> x then 1 - l else - l))"

definition round53 :: "rat \<Rightarrow> rat" where
  "round53 x = (if x = 0 then 0 else
     (let k = 52 - expo x in of_int (rne (x * 2 powi k)) * 2 powi (- k)))"

datatype jsnum = NaN | PosInf | Fin rat

text \<open>\<^verbatim>\<open>a / b\<close> on two non-negative integers: \<open>0/0\<close> is NaN, \<open>a/0\<close> is Infinity.\<close>

definition fdiv :: "nat \<Rightarrow> nat \<Rightarrow> jsnum" where
  "fdiv a b = (if b = 0 then (if a = 0 then NaN else PosInf)
               else Fin (round53 (of_nat a / of_nat b)))"

text \<open>\<^verbatim>\<open>x * c\<close> for a non-negative \<open>x\<close> and a non-negative integer \<open>c\<close>.\<close>

fun fmul :: "jsnum \<Rightarrow> nat \<Rightarrow> jsnum" where
  "fmul NaN c = NaN"
| "fmul PosInf c = (if c = 0 then NaN else PosInf)"
| "fmul (Fin x) c = Fin (round53 (x * of_nat c))"

text \<open>\<^verbatim>\<open>Math.round\<close>: the nearest integer, a tie going up; NaN and Infinity stay.\<close>

fun math_round :: "jsnum \<Rightarrow> jsnum" where
  "math_round NaN = NaN"
| "math_round PosInf = PosInf"
| "math_round (Fin x) = Fin (of_int \<lfloor>x + 1/2\<rfloor>)"

text \<open>\<^verbatim>\<open>JSON.stringify\<close> writes NaN and Infinity as \<^verbatim>\<open>null\<close>.\<close>

fun json_of_num :: "jsnum \<Rightarrow> jsval" where
  "json_of_num NaN = JNull"
| "json_of_num PosInf = JNull"
| "json_of_num (Fin x) = JNum x"

text \<open>\<^verbatim>\<open>Math.round((score / test.questions.length) * 100)\<close>\<close>

definition percentage_of :: "nat \<Rightarrow> nat \<Rightarrow> jsnum" where
  "percentage_of score len = math_round (fmul (fdiv score len) 100)"

section \<open>The collections\<close>

text \<open>
  One record per data file entry, with the fields the handlers below read or write
  (password hashes, names, phone numbers, time limits and creation timestamps are left
  out). A question is kept as its property map, since the handlers copy whatever
  properties the client sent. A data file is the list of its entries, and a write
  replaces the list. Times are milliseconds, as \<^verbatim>\<open>Date.now()\<close> counts them.
\<close>

record user =
  u_id :: string
  u_direction :: string
  u_login :: jsval
  u_telegram :: jsval
  u_isAdmin :: bool

record direction =
  d_id :: string
  d_name :: jsval

record test =
  t_id :: string
  t_title :: "jsval option"
  t_direction :: string
  t_directionName :: jsval
  t_questions :: "jsobj list"

record question_result =
  questionId :: "jsval option"
  userAnswer :: "jsval option"
  correctAnswer :: "jsval option"
  isCorrect :: bool

record result =
  r_id :: string
  r_userId :: string
  r_testId :: "jsval option"
  r_score :: nat
  r_totalQuestions :: nat
  r_percentage :: jsval
  r_timeSpent :: jsval
  r_questionResults :: "question_result list"

record verification =
  v_telegram :: jsval
  v_code :: string
  v_expiresAt :: nat

record store =
  users :: "user list"
  directions :: "direction list"
  tests :: "test list"
  results :: "result list"
  verifications :: "verification list"

text \<open>The payload of a verified bearer token (\<^verbatim>\<open>req.user\<close>).\<close>

record token =
  userId :: string
  isAdmin :: bool

section \<open>GET /api/tests/:id\<close>



section \<open>GET /api/tests\<close>

text \<open>\<^verbatim>\<open>{ ...test, completed }\<close> is the pair of the test and the flag.\<close>

definition get_tests :: "token \<Rightarrow> store \<Rightarrow> error + (test \<times> bool) list" where
  "get_tests tok s =
     (case find (\<lambda>u. u_id u = userId tok) (users s) of
        None \<Rightarrow> Inl UserNotFound
      | Some user \<Rightarrow>
          (let userTests = (if \<not> u_isAdmin user
                            then filter (\<lambda>t. t_direction t = u_direction user) (tests s)
                            else tests s);
               userResults = filter (\<lambda>r. r_userId r = u_id user) (results s)
           in Inr (map (\<lambda>test.
                      (test, list_ex (\<lambda>r. strict_eq (r_testId r) (Some (JStr (t_id test))))
                               userResults))
                    userTests)))"

section \<open>POST /api/submit-test\<close>

text \<open>
  The callback of \<^verbatim>\<open>test.questions.map((question, index) => ...)\<close>, run over the questions
  in order with the running \<open>score\<close>.
\<close>

fun grade :: "jsval \<Rightarrow> nat \<Rightarrow> jsobj list \<Rightarrow> nat \<Rightarrow> error + (question_result list \<times> nat)" where
  "grade answers index [] score = Inr ([], score)"
| "grade answers index (question # rest) score =
     (case js_index answers index of
        Inl e \<Rightarrow> Inl e
      | Inr answer \<Rightarrow>
          (let correct = strict_eq answer (question ''correct'');
               score' = (if correct then score + 1 else score)
           in case grade answers (index + 1) rest score' of
                Inl e \<Rightarrow> Inl e
              | Inr (qrs, final) \<Rightarrow>
                  Inr (\<lparr>questionId = question ''id'', userAnswer = answer,
                        correctAnswer = question ''correct'', isCorrect = correct\<rparr> # qrs,
                       final)))"

record submit_response =
  sr_score :: nat
  sr_totalQuestions :: nat
  sr_percentage :: jsval

definition submit_test ::
  "token \<Rightarrow> nat \<Rightarrow> jsobj \<Rightarrow> store \<Rightarrow> (error + submit_response) \<times> store" where
  "submit_test tok now body s =
     (let testId = body ''testId''; answers = body ''answers''; timeSpent = body ''timeSpent'' in
      if \<not> truthy testId \<or> \<not> truthy answers then (Inl MissingFields, s)
      else case find (\<lambda>t. strict_eq (Some (JStr (t_id t))) testId) (tests s) of
        None \<Rightarrow> (Inl TestNotFound, s)
      | Some test \<Rightarrow>
         (case find (\<lambda>r. r_userId r = userId tok \<and> strict_eq (r_testId r) testId) (results s) of
            Some existingResult \<Rightarrow> (Inl AlreadySubmitted, s)
          | None \<Rightarrow>
             (case grade (case answers of Some a \<Rightarrow> a | None \<Rightarrow> JNull) 0 (t_questions test) 0 of
                Inl e \<Rightarrow> (Inl e, s)
              | Inr (questionResults, score) \<Rightarrow>
                 (let total = length (t_questions test);
                      percentage = json_of_num (percentage_of score total);
                      newResult = \<lparr>r_id = show_nat now, r_userId = userId tok, r_testId = testId,
                                    r_score = score, r_totalQuestions = total,
                                    r_percentage = percentage,
                                    r_timeSpent = (case timeSpent of
                                                     Some v \<Rightarrow> if truthy timeSpent then v else JNum 0
                                                   | None \<Rightarrow> JNum 0),
                                    r_questionResults = questionResults\<rparr>
                  in (Inr \<lparr>sr_score = score, sr_totalQuestions = total,
                            sr_percentage = percentage\<rparr>,
                      s\<lparr>results := results s @ [newResult]\<rparr>)))))"

section \<open>The admin handlers for tests\<close>

text \<open>\<^verbatim>\<open>!questions || !questions.length\<close>\<close>

definition no_questions :: "jsval option \<Rightarrow> bool" where
  "no_questions questions =
     (case questions of
        None \<Rightarrow> True
      | Some v \<Rightarrow> \<not> truthy (Some v) \<or> \<not> truthy (js_length v))"

text \<open>\<^verbatim>\<open>(q, index) => ({ id: (index + 1).toString(), ...q })\<close>: the properties of \<open>q\<close>
  are written after \<open>id\<close>.\<close>

definition with_id :: "nat \<Rightarrow> jsval \<Rightarrow> jsobj" where
  "with_id index q = [''id'' \<mapsto> JStr (show_nat (index + 1))] ++ spread q"

text \<open>\<^verbatim>\<open>questions.map(...)\<close>: only an array has \<^verbatim>\<open>map\<close>; on a string or an object the
  call throws.\<close>

fun number_questions :: "jsval \<Rightarrow> error + jsobj list" where
  "number_questions (JArr qs) = Inr (map (\<lambda>(index, q). with_id index q) (enumerate 0 qs))"
| "number_questions _ = Inl ServerError"

text \<open>
  The handlers store the body's \<open>direction\<close>. The lookup
  \<^verbatim>\<open>directions.find(d => d.id === direction)\<close> has found it identical to the identifier of
  \<open>selectedDirection\<close>, so what is stored is the string \<open>d_id selectedDirection\<close>.
  \<^verbatim>\<open>parseInt(timeLimit)\<close> and \<^verbatim>\<open>parseInt(attempts)\<close> never throw; their results are among
  the fields left out.
\<close>

definition test_fields_missing :: "jsobj \<Rightarrow> bool" where
  "test_fields_missing body =
     (\<not> truthy (body ''title'') \<or> \<not> truthy (body ''direction'') \<or> \<not> truthy (body ''timeLimit'')
      \<or> \<not> truthy (body ''attempts'') \<or> no_questions (body ''questions''))"

definition create_test :: "token \<Rightarrow> nat \<Rightarrow> jsobj \<Rightarrow> store \<Rightarrow> (error + test) \<times> store" where
  "create_test tok now body s =
     (if \<not> isAdmin tok then (Inl Forbidden, s)
      else if test_fields_missing body then (Inl MissingFields, s)
      else case find (\<lambda>d. strict_eq (Some (JStr (d_id d))) (body ''direction'')) (directions s) of
        None \<Rightarrow> (Inl UnknownDirection, s)
      | Some selectedDirection \<Rightarrow>
         (case number_questions (case body ''questions'' of Some v \<Rightarrow> v | None \<Rightarrow> JNull) of
            Inl e \<Rightarrow> (Inl e, s)
          | Inr questions \<Rightarrow>
             (let newTest = \<lparr>t_id = show_nat now, t_title = body ''title'',
                             t_direction = d_id selectedDirection,
                             t_directionName = d_name selectedDirection,
                             t_questions = questions\<rparr>
              in (Inr newTest, s\<lparr>tests := tests s @ [newTest]\<rparr>))))"

text \<open>\<^verbatim>\<open>xs.findIndex(p)\<close>; \<open>None\<close> is the result \<open>-1\<close>.\<close>

fun findIndex :: "('a \<Rightarrow> bool) \<Rightarrow> 'a list \<Rightarrow> nat option" where
  "findIndex p [] = None"
| "findIndex p (x # xs) =
     (if p x then Some 0 else (case findIndex p xs of None \<Rightarrow> None | Some i \<Rightarrow> Some (Suc i)))"

text \<open>\<^verbatim>\<open>xs.splice(i, 1)\<close>\<close>

definition splice1 :: "nat \<Rightarrow> 'a list \<Rightarrow> 'a list" where
  "splice1 i xs = take i xs @ drop (Suc i) xs"

definition update_test :: "token \<Rightarrow> string \<Rightarrow> jsobj \<Rightarrow> store \<Rightarrow> (error + test) \<times> store" where
  "update_test tok testId body s =
     (if \<not> isAdmin tok then (Inl Forbidden, s)
      else if test_fields_missing body then (Inl MissingFields, s)
      else case findIndex (\<lambda>t. t_id t = testId) (tests s) of
        None \<Rightarrow> (Inl TestNotFound, s)
      | Some testIndex \<Rightarrow>
         (case find (\<lambda>d. strict_eq (Some (JStr (d_id d))) (body ''direction'')) (directions s) of
            None \<Rightarrow> (Inl UnknownDirection, s)
          | Some selectedDirection \<Rightarrow>
             (case number_questions (case body ''questions'' of Some v \<Rightarrow> v | None \<Rightarrow> JNull) of
                Inl e \<Rightarrow> (Inl e, s)
              | Inr questions \<Rightarrow>
                 (let updated = (tests s ! testIndex)
                                  \<lparr>t_title := body ''title'',
                                   t_direction := d_id selectedDirection,
                                   t_directionName := d_name selectedDirection,
                                   t_questions := questions\<rparr>
                  in (Inr updated, s\<lparr>tests := (tests s)[testIndex := updated]\<rparr>)))))"

definition delete_test :: "token \<Rightarrow> string \<Rightarrow> store \<Rightarrow> (error + unit) \<times> store" where
  "delete_test tok testId s =
     (if \<not> isAdmin tok then (Inl Forbidden, s)
      else case findIndex (\<lambda>t. t_id t = testId) (tests s) of
        None \<Rightarrow> (Inl TestNotFound, s)
      | Some testIndex \<Rightarrow> (Inr (), s\<lparr>tests := splice1 testIndex (tests s)\<rparr>))"

section \<open>The admin handlers for directions\<close>

definition add_direction :: "token \<Rightarrow> nat \<Rightarrow> jsobj \<Rightarrow> store \<Rightarrow> (error + direction) \<times> store" where
  "add_direction tok now body s =
     (if \<not> isAdmin tok then (Inl Forbidden, s)
      else case body ''name'' of
        None \<Rightarrow> (Inl MissingFields, s)
      | Some name \<Rightarrow>
         if \<not> truthy (Some name) then (Inl MissingFields, s)
         else if list_ex (\<lambda>d. strict_eq (Some (d_name d)) (Some name)) (directions s)
         then (Inl DirectionExists, s)
         else (let newDirection = \<lparr>d_id = show_nat now, d_name = name\<rparr>
               in (Inr newDirection, s\<lparr>directions := directions s @ [newDirection]\<rparr>)))"

definition delete_direction :: "token \<Rightarrow> string \<Rightarrow> store \<Rightarrow> (error + unit) \<times> store" where
  "delete_direction tok directionId s =
     (if \<not> isAdmin tok then (Inl Forbidden, s)
      else case findIndex (\<lambda>d. d_id d = directionId) (directions s) of
        None \<Rightarrow> (Inl DirectionNotFound, s)
      | Some directionIndex \<Rightarrow>
         if list_ex (\<lambda>u. u_direction u = directionId) (users s)
         then (Inl DirectionInUseByUsers, s)
         else if list_ex (\<lambda>t. t_direction t = directionId) (tests s)
         then (Inl DirectionInUseByTests, s)
         else (Inr (), s\<lparr>directions := splice1 directionIndex (directions s)\<rparr>))"

section \<open>Registration and verification codes\<close>

definition register_fields_missing :: "jsobj \<Rightarrow> bool" where
  "register_fields_missing body =
     (\<not> truthy (body ''firstName'') \<or> \<not> truthy (body ''lastName'') \<or> \<not> truthy (body ''direction'')
      \<or> \<not> truthy (body ''phone'') \<or> \<not> truthy (body ''telegram'') \<or> \<not> truthy (body ''login'')
      \<or> \<not> truthy (body ''password''))"

text \<open>
  \<^verbatim>\<open>bcrypt.hash(password, 10)\<close> rejects a password that is not a string; the handler then
  answers 500 and stores nothing.
\<close>

fun is_string :: "jsval option \<Rightarrow> bool" where
  "is_string (Some (JStr p)) = True"
| "is_string _ = False"

definition register :: "nat \<Rightarrow> jsobj \<Rightarrow> store \<Rightarrow> (error + unit) \<times> store" where
  "register now body s =
     (if register_fields_missing body then (Inl MissingFields, s)
      else if list_ex (\<lambda>u. strict_eq (Some (u_login u)) (body ''login'')) (users s)
      then (Inl LoginTaken, s)
      else if list_ex (\<lambda>u. strict_eq (Some (u_telegram u)) (body ''telegram'')) (users s)
      then (Inl TelegramTaken, s)
      else case find (\<lambda>d. strict_eq (Some (JStr (d_id d))) (body ''direction'')) (directions s) of
        None \<Rightarrow> (Inl UnknownDirection, s)
      | Some selectedDirection \<Rightarrow>
         if \<not> is_string (body ''password'') then (Inl ServerError, s)
         else
         (let newUser = \<lparr>u_id = show_nat now, u_direction = d_id selectedDirection,
                         u_login = (case body ''login'' of Some v \<Rightarrow> v | None \<Rightarrow> JNull),
                         u_telegram = (case body ''telegram'' of Some v \<Rightarrow> v | None \<Rightarrow> JNull),
                         u_isAdmin = False\<rparr>
          in (Inr (), s\<lparr>users := users s @ [newUser]\<rparr>)))"

text \<open>
  \<open>code\<close> is the value of \<^verbatim>\<open>Math.floor(100000 + Math.random() * 900000)\<close>, and the
  entry expires five minutes after \<open>now\<close>. The response (with or without the code,
  as the bot delivered it or not) is not modelled.
\<close>

definition send_verification :: "nat \<Rightarrow> nat \<Rightarrow> jsobj \<Rightarrow> store \<Rightarrow> (error + unit) \<times> store" where
  "send_verification now code body s =
     (case body ''telegram'' of
        None \<Rightarrow> (Inl MissingFields, s)
      | Some telegram \<Rightarrow>
         if \<not> truthy (Some telegram) then (Inl MissingFields, s)
         else (let filteredVerifications =
                     filter (\<lambda>v. \<not> strict_eq (Some (v_telegram v)) (Some telegram)) (verifications s);
                   newVerification = \<lparr>v_telegram = telegram, v_code = show_nat code,
                                       v_expiresAt = now + 5 * 60 * 1000\<rparr>
               in (Inr (), s\<lparr>verifications := filteredVerifications @ [newVerification]\<rparr>)))"

definition verify_code :: "nat \<Rightarrow> jsobj \<Rightarrow> store \<Rightarrow> (error + unit) \<times> store" where
  "verify_code now body s =
     (let telegram = body ''telegram''; code = body ''code'' in
      if \<not> truthy telegram \<or> \<not> truthy code then (Inl MissingFields, s)
      else case find (\<lambda>v. strict_eq (Some (v_telegram v)) telegram
                          \<and> strict_eq (Some (JStr (v_code v))) code
                          \<and> now < v_expiresAt v) (verifications s) of
        None \<Rightarrow> (Inl InvalidOrExpired, s)
      | Some verification \<Rightarrow>
         (Inr (), s\<lparr>verifications :=
                       filter (\<lambda>v. \<not> (strict_eq (Some (v_telegram v)) telegram
                                       \<and> strict_eq (Some (JStr (v_code v))) code))
                              (verifications s)\<rparr>))"

text \<open>
  What \<open>send_verification\<close> writes: an entry has a non-empty telegram name and a
  non-empty code.
\<close>

definition well_formed_entries :: "store \<Rightarrow> bool" where
  "well_formed_entries s =
     list_all (\<lambda>v. truthy (Some (v_telegram v)) \<and> v_code v \<noteq> []) (verifications s)"


section \<open>Sequences of requests\<close>

text \<open>
  One step is one request to a handler that writes a data file, with whatever token, body
  and clock value it arrives; the GET handlers write nothing. Requests are handled one
  after the other.
\<close>

inductive api_step :: "store \<Rightarrow> store \<Rightarrow> bool" where
  step_register: "api_step s (snd (register now body s))"
| step_send_verification: "api_step s (snd (send_verification now code body s))"
| step_verify_code: "api_step s (snd (verify_code now body s))"
| step_submit_test: "api_step s (snd (submit_test tok now body s))"
| step_create_test: "api_step s (snd (create_test tok now body s))"
| step_update_test: "api_step s (snd (update_test tok testId body s))"
| step_delete_test: "api_step s (snd (delete_test tok testId s))"
| step_add_direction: "api_step s (snd (add_direction tok now body s))"
| step_delete_direction: "api_step s (snd (delete_direction tok directionId s))"

section \<open>Example data\<close>

text \<open>
  A small installation: the directions \<open>1\<close> and \<open>2\<close>, an administrator and a learner of
  direction \<open>1\<close>, and one test of four questions whose correct options are 0, 1, 2, 3.
\<close>

definition ex_question :: "nat \<Rightarrow> jsobj" where
  "ex_question n =
     [''id'' \<mapsto> JStr (show_nat (n + 1)), ''question'' \<mapsto> JStr ''Savol'',
      ''options'' \<mapsto> JArr [JStr ''A'', JStr ''B'', JStr ''C'', JStr ''D''],
      ''correct'' \<mapsto> JNum (of_nat n)]"

definition ex_test :: test where
  "ex_test = \<lparr>t_id = ''1700000000000'', t_title = Some (JStr ''Kirish testi''),
              t_direction = ''1'', t_directionName = JStr ''Dasturlash'',
              t_questions = [ex_question 0, ex_question 1, ex_question 2, ex_question 3]\<rparr>"

definition ex_admin :: user where
  "ex_admin = \<lparr>u_id = ''1'', u_direction = ''Admin'', u_login = JStr ''admin'',
               u_telegram = JStr ''@admin'', u_isAdmin = True\<rparr>"

definition ex_learner :: user where
  "ex_learner = \<lparr>u_id = ''1700000000001'', u_direction = ''1'', u_login = JStr ''ali'',
                 u_telegram = JStr ''@ali'', u_isAdmin = False\<rparr>"

definition ex_verification :: verification where
  "ex_verification = \<lparr>v_telegram = JStr ''@vali'', v_code = ''123456'', v_expiresAt = 300000\<rparr>"

definition ex_store :: store where
  "ex_store = \<lparr>users = [ex_admin, ex_learner],
               directions = [\<lparr>d_id = ''1'', d_name = JStr ''Dasturlash''\<rparr>,
                             \<lparr>d_id = ''2'', d_name = JStr ''Dizayn''\<rparr>],
               tests = [ex_test], results = [], verifications = [ex_verification]\<rparr>"

definition ex_admin_token :: token where
  "ex_admin_token = \<lparr>userId = ''1'', isAdmin = True\<rparr>"

definition ex_learner_token :: token where
  "ex_learner_token = \<lparr>userId = ''1700000000001'', isAdmin = False\<rparr>"

text \<open>The submission of the answers 0, 1, 9, 3 to the example test.\<close>

definition ex_submission :: jsobj where
  "ex_submission = [''testId'' \<mapsto> JStr ''1700000000000'',
                    ''answers'' \<mapsto> JArr [JNum 0, JNum 1, JNum 9, JNum 3],
                    ''timeSpent'' \<mapsto> JNum 60]"

text \<open>A verification request for the stored entry.\<close>

definition ex_verify_body :: jsobj where
  "ex_verify_body = [''telegram'' \<mapsto> JStr ''@vali'', ''code'' \<mapsto> JStr ''123456'']"

text \<open>A submission that answers only the first question of the example test.\<close>

definition ex_partial_submission :: jsobj where
  "ex_partial_submission = [''testId'' \<mapsto> JStr ''1700000000000'', ''answers'' \<mapsto> JArr [JNum 0]]"




text \<open>
  The example store after the example submission, then after an administrator deleted
  the unused direction \<open>2\<close>, or instead deleted the test.
\<close>

definition ex_store_submitted :: store where
  "ex_store_submitted = snd (submit_test ex_learner_token 1700000000500 ex_submission ex_store)"

definition ex_store_later :: store where
  "ex_store_later = snd (delete_direction ex_admin_token ''2'' ex_store_submitted)"

definition ex_store_deleted :: store where
  "ex_store_deleted = snd (delete_test ex_admin_token ''1700000000000'' ex_store_submitted)"

text \<open>
  A request body for creating or updating a test: its first question carries an \<open>id\<close> of
  the client's, its second none.
\<close>

definition ex_test_body :: jsobj where
  "ex_test_body =
     [''title'' \<mapsto> JStr ''Yangi test'', ''direction'' \<mapsto> JStr ''1'',
      ''timeLimit'' \<mapsto> JNum 30, ''attempts'' \<mapsto> JNum 1,
      ''questions'' \<mapsto>
        JArr [JObj [(''id'', JStr ''7''), (''question'', JStr ''Birinchi''),
                    (''options'', JArr [JStr ''A'', JStr ''B'']), (''correct'', JNum 0)],
              JObj [(''question'', JStr ''Ikkinchi''),
                    (''options'', JArr [JStr ''A'', JStr ''B'']), (''correct'', JNum 1)]]]"

text \<open>
  A test of forty questions, each with the correct option 0, and a submission that
  answers the first 23 of them with 0 and the other 17 with 1.
\<close>

definition ex_long_question :: "nat \<Rightarrow> jsobj" where
  "ex_long_question n =
     [''id'' \<mapsto> JStr (show_nat (n + 1)), ''question'' \<mapsto> JStr ''Savol'',
      ''options'' \<mapsto> JArr [JStr ''A'', JStr ''B'', JStr ''C'', JStr ''D''],
      ''correct'' \<mapsto> JNum 0]"

definition ex_long_test :: test where
  "ex_long_test = \<lparr>t_id = ''1700000000003'', t_title = Some (JStr ''Yakuniy test''),
                   t_direction = ''1'', t_directionName = JStr ''Dasturlash'',
                   t_questions = map ex_long_question [0..<40]\<rparr>"

definition ex_long_store :: store where
  "ex_long_store = ex_store\<lparr>tests := [ex_test, ex_long_test]\<rparr>"

definition ex_long_submission :: jsobj where
  "ex_long_submission =
     [''testId'' \<mapsto> JStr ''1700000000003'',
      ''answers'' \<mapsto> JArr (replicate 23 (JNum 0) @ replicate 17 (JNum 1))]"

text \<open>
  A request body that creates a test whose only question has no \<open>correct\<close> property, the
  store after an administrator sent it, and a submission without answers to that test.
\<close>

definition ex_unmarked_body :: jsobj where
  "ex_unmarked_body =
     [''title'' \<mapsto> JStr ''Belgisiz test'', ''direction'' \<mapsto> JStr ''1'',
      ''timeLimit'' \<mapsto> JNum 30, ''attempts'' \<mapsto> JNum 1,
      ''questions'' \<mapsto>
        JArr [JObj [(''question'', JStr ''Savol''), (''options'', JArr [JStr ''A'', JStr ''B''])]]]"

definition ex_unmarked_store :: store where
  "ex_unmarked_store = snd (create_test ex_admin_token 1700000002000 ex_unmarked_body ex_store)"

definition ex_unmarked_submission :: jsobj where
  "ex_unmarked_submission = [''testId'' \<mapsto> JStr ''1700000002000'', ''answers'' \<mapsto> JArr []]"

text \<open>
  Two requests that add a direction, and the store after an administrator sent both
  within one millisecond: both directions get the identifier that the clock gives.
\<close>

definition ex_name_body :: jsobj where
  "ex_name_body = [''name'' \<mapsto> JStr ''Marketing'']"

definition ex_name_body' :: jsobj where
  "ex_name_body' = [''name'' \<mapsto> JStr ''Tillar'']"

definition ex_dup_store :: store where
  "ex_dup_store =
     snd (add_direction ex_admin_token 1700000003000 ex_name_body'
            (snd (add_direction ex_admin_token 1700000003000 ex_name_body ex_store)))"

section \<open>Lists\<close>

lemma find_Some_ex: "x \<in> set xs \<Longrightarrow> P x \<Longrightarrow> \<exists>y. find P xs = Some y \<and> y \<in> set xs \<and> P y"
  by (induction xs) auto

lemma find_Some_holds: "find P xs = Some x \<Longrightarrow> P x \<and> x \<in> set xs"
  by (induction xs) (auto split: if_splits)

lemma findIndex_Some:
  "findIndex p xs = Some i \<Longrightarrow> i < length xs \<and> p (xs ! i) \<and> (\<forall>j < i. \<not> p (xs ! j))"
proof (induction xs arbitrary: i)
  case Nil
  then show ?case by simp
next
  case (Cons x xs)
  show ?case
  proof (cases "p x")
    case True
    with Cons.prems show ?thesis by simp
  next
    case False
    with Cons.prems obtain k where k: "findIndex p xs = Some k" "i = Suc k"
      by (auto split: option.splits)
    from Cons.IH [OF k(1)] False k(2) show ?thesis
      by (auto simp: less_Suc_eq_0_disj)
  qed
qed

lemma findIndex_None: "findIndex p xs = None \<longleftrightarrow> (\<forall>x \<in> set xs. \<not> p x)"
  by (induction xs) (auto split: option.splits)

lemma findIndex_ex: "x \<in> set xs \<Longrightarrow> p x \<Longrightarrow> \<exists>i. findIndex p xs = Some i"
  using findIndex_None [of p xs] by (cases "findIndex p xs") auto

lemma length_splice1: "i < length xs \<Longrightarrow> length (splice1 i xs) = length xs - 1"
  by (simp add: splice1_def)

lemma set_splice1_distinct:
  assumes "distinct (map f xs)" and "i < length xs"
  shows "f (xs ! i) \<notin> f ` set (splice1 i xs)"
proof -
  have xs: "xs = take i xs @ (xs ! i) # drop (Suc i) xs"
    using assms(2) by (simp add: id_take_nth_drop)
  have "distinct (map f (take i xs @ (xs ! i) # drop (Suc i) xs))"
    using assms(1) xs by simp
  then show ?thesis
    by (auto simp: splice1_def)
qed

lemma set_splice1_subset: "set (splice1 i xs) \<subseteq> set xs"
  by (auto simp: splice1_def dest: in_set_takeD in_set_dropD)

section \<open>Decimal digits\<close>

lemma show_nat_digit: "n < 10 \<Longrightarrow> show_nat n = [digit_char n]"
  by (simp add: show_nat.simps)

lemma show_nat_1: "show_nat (Suc 0) = ''1''"
  by (simp add: show_nat_digit digit_char_def)

lemma show_nat_2: "show_nat (Suc (Suc 0)) = ''2''"
  by (simp add: show_nat_digit digit_char_def)

lemma show_nat_step: "10 \<le> n \<Longrightarrow> show_nat n = show_nat (n div 10) @ [digit_char (n mod 10)]"
proof -
  assume "10 \<le> n"
  then have "\<not> n < 10" by simp
  then show ?thesis by (subst show_nat.simps [of n]) (simp only: if_False)
qed

lemma show_nat_1700000002000: "show_nat 1700000002000 = ''1700000002000''"
  by (simp add: show_nat_step show_nat_digit digit_char_def)

lemma show_nat_1700000003000: "show_nat 1700000003000 = ''1700000003000''"
  by (simp add: show_nat_step show_nat_digit digit_char_def)

lemma show_nat_nonempty: "show_nat n \<noteq> []"
  by (subst show_nat.simps) simp

section \<open>Grading\<close>

lemma strict_eq_string: "strict_eq (Some (JStr a)) v \<Longrightarrow> v = Some (JStr a)"
  by (cases "(Some (JStr a), v)" rule: strict_eq.cases) auto

lemma strict_eq_truthy: "strict_eq (Some a) v \<Longrightarrow> truthy (Some a) \<Longrightarrow> truthy v"
  by (cases "(Some a, v)" rule: strict_eq.cases) auto

lemma truthy_not_null: "truthy (Some a) \<Longrightarrow> a \<noteq> JNull"
  by (cases a) simp_all

lemma js_index_total: "a \<noteq> JNull \<Longrightarrow> \<exists>v. js_index a i = Inr v"
  by (cases a) simp_all

lemma grade_Inr:
  assumes "a \<noteq> JNull"
  shows "\<exists>qrs. grade a i qs sc = Inr (qrs, sc + length (filter isCorrect qrs))
           \<and> length qrs = length qs
           \<and> (\<forall>j < length qs.
                 js_index a (i + j) = Inr (userAnswer (qrs ! j))
                 \<and> questionId (qrs ! j) = (qs ! j) ''id''
                 \<and> correctAnswer (qrs ! j) = (qs ! j) ''correct''
                 \<and> isCorrect (qrs ! j) = strict_eq (userAnswer (qrs ! j)) ((qs ! j) ''correct''))"
proof (induction qs arbitrary: i sc)
  case Nil
  show ?case by simp
next
  case (Cons q qs)
  from js_index_total [OF assms] obtain v where v: "js_index a i = Inr v" by blast
  define c where "c = strict_eq v (q ''correct'')"
  define sc' where "sc' = (if c then sc + 1 else sc)"
  from Cons.IH [of "i + 1" sc'] obtain qrs where
    g: "grade a (i + 1) qs sc' = Inr (qrs, sc' + length (filter isCorrect qrs))"
    and l: "length qrs = length qs"
    and p: "\<forall>j < length qs.
                 js_index a (i + 1 + j) = Inr (userAnswer (qrs ! j))
                 \<and> questionId (qrs ! j) = (qs ! j) ''id''
                 \<and> correctAnswer (qrs ! j) = (qs ! j) ''correct''
                 \<and> isCorrect (qrs ! j) = strict_eq (userAnswer (qrs ! j)) ((qs ! j) ''correct'')"
    by blast
  let ?qr = "\<lparr>questionId = q ''id'', userAnswer = v, correctAnswer = q ''correct'', isCorrect = c\<rparr>"
  have run: "grade a i (q # qs) sc = Inr (?qr # qrs, sc' + length (filter isCorrect qrs))"
    using v g by (simp add: c_def sc'_def Let_def)
  have cnt: "sc' + length (filter isCorrect qrs) = sc + length (filter isCorrect (?qr # qrs))"
    by (simp add: sc'_def)
  have each: "\<forall>j < length (q # qs).
                 js_index a (i + j) = Inr (userAnswer ((?qr # qrs) ! j))
                 \<and> questionId ((?qr # qrs) ! j) = ((q # qs) ! j) ''id''
                 \<and> correctAnswer ((?qr # qrs) ! j) = ((q # qs) ! j) ''correct''
                 \<and> isCorrect ((?qr # qrs) ! j)
                     = strict_eq (userAnswer ((?qr # qrs) ! j)) (((q # qs) ! j) ''correct'')"
  proof (intro allI impI)
    fix j assume j: "j < length (q # qs)"
    show "js_index a (i + j) = Inr (userAnswer ((?qr # qrs) ! j))
                 \<and> questionId ((?qr # qrs) ! j) = ((q # qs) ! j) ''id''
                 \<and> correctAnswer ((?qr # qrs) ! j) = ((q # qs) ! j) ''correct''
                 \<and> isCorrect ((?qr # qrs) ! j)
                     = strict_eq (userAnswer ((?qr # qrs) ! j)) (((q # qs) ! j) ''correct'')"
    proof (cases j)
      case 0
      then show ?thesis using v by (simp add: c_def)
    next
      case (Suc k)
      with j have "k < length qs" by simp
      with p Suc show ?thesis by simp
    qed
  qed
  show ?case
    using run cnt each l by (intro exI [of _ "?qr # qrs"]) simp
qed

lemma grade_null: "qs \<noteq> [] \<Longrightarrow> grade JNull i qs sc = Inl ServerError"
  by (cases qs) simp_all

text \<open>The outcome of a submission that passes the three checks.\<close>

lemma submit_test_graded:
  assumes tid: "truthy (body ''testId'')"
      and ans: "body ''answers'' = Some a" "truthy (Some a)"
      and found: "find (\<lambda>t. strict_eq (Some (JStr (t_id t))) (body ''testId'')) (tests s) = Some test"
      and fresh: "find (\<lambda>r. r_userId r = userId tok \<and> strict_eq (r_testId r) (body ''testId''))
                    (results s) = None"
  shows "\<exists>resp r. submit_test tok now body s = (Inr resp, s\<lparr>results := results s @ [r]\<rparr>)
           \<and> r_userId r = userId tok \<and> r_testId r = body ''testId''
           \<and> r_totalQuestions r = length (t_questions test)
           \<and> length (r_questionResults r) = length (t_questions test)
           \<and> r_score r = length (filter isCorrect (r_questionResults r))
           \<and> r_percentage r = json_of_num (percentage_of (r_score r) (r_totalQuestions r))
           \<and> sr_score resp = r_score r \<and> sr_totalQuestions resp = r_totalQuestions r
           \<and> sr_percentage resp = r_percentage r
           \<and> (\<forall>j < length (t_questions test).
                js_index a j = Inr (userAnswer (r_questionResults r ! j))
                \<and> isCorrect (r_questionResults r ! j)
                    = strict_eq (userAnswer (r_questionResults r ! j))
                        ((t_questions test ! j) ''correct''))"
proof -
  from grade_Inr [OF truthy_not_null [OF ans(2)], of 0 "t_questions test" 0]
  obtain qrs where
    g: "grade a 0 (t_questions test) 0 = Inr (qrs, length (filter isCorrect qrs))"
    and l: "length qrs = length (t_questions test)"
    and p: "\<forall>j < length (t_questions test).
                 js_index a j = Inr (userAnswer (qrs ! j))
                 \<and> isCorrect (qrs ! j) = strict_eq (userAnswer (qrs ! j))
                                           ((t_questions test ! j) ''correct'')"
    by auto
  define pc where "pc = json_of_num (percentage_of (length (filter isCorrect qrs))
                                       (length (t_questions test)))"
  define r where "r = \<lparr>r_id = show_nat now, r_userId = userId tok, r_testId = body ''testId'',
                        r_score = length (filter isCorrect qrs),
                        r_totalQuestions = length (t_questions test),
                        r_percentage = pc,
                        r_timeSpent = (case body ''timeSpent'' of
                                         Some v \<Rightarrow> if truthy (body ''timeSpent'') then v else JNum 0
                                       | None \<Rightarrow> JNum 0),
                        r_questionResults = qrs\<rparr>"
  define resp where "resp = \<lparr>sr_score = length (filter isCorrect qrs),
                              sr_totalQuestions = length (t_questions test),
                              sr_percentage = pc\<rparr>"
  have run: "submit_test tok now body s = (Inr resp, s\<lparr>results := results s @ [r]\<rparr>)"
    using tid ans found fresh g
    by (simp add: submit_test_def Let_def r_def resp_def pc_def)
  show ?thesis
    using run l p
    by (intro exI [of _ resp] exI [of _ r]) (simp add: r_def resp_def pc_def)
qed

section \<open>Rounding to a double\<close>

lemma rne_near:
  assumes "of_int m - 1/2 < y" and "y < of_int m + 1/2"
  shows "rne y = m"
proof (cases "y < of_int m")
  case True
  have f: "\<lfloor>y\<rfloor> = m - 1"
    by (rule floor_unique) (use assms True in auto)
  show ?thesis
    unfolding rne_def Let_def f using assms True by simp
next
  case False
  have f: "\<lfloor>y\<rfloor> = m"
    by (rule floor_unique) (use assms False in auto)
  show ?thesis
    unfolding rne_def Let_def f using assms False by simp
qed

lemma rne_error: "\<bar>of_int (rne y) - y\<bar> \<le> 1/2"
proof -
  define f where "f = \<lfloor>y\<rfloor>"
  have "of_int f \<le> y" "y < of_int f + 1"
    using floor_correct [of y] by (simp_all add: f_def)
  then show ?thesis
    unfolding rne_def Let_def f_def [symmetric] by (simp add: abs_if)
qed

lemma powi_pos: "0 < (2::rat) powi e"
  by (simp add: power_int_def)

lemma powi_mono: "a \<le> b \<Longrightarrow> (2::rat) powi a \<le> 2 powi b"
  by (rule power_int_increasing) simp_all

lemma powi_strict_mono: "a < b \<Longrightarrow> (2::rat) powi a < 2 powi b"
  by (rule power_int_strict_increasing) simp_all

text \<open>\<open>expo x\<close> is the exponent of the binade of \<open>x\<close>.\<close>

lemma expo_bounds:
  assumes "0 < x"
  shows "2 powi (expo x) \<le> x \<and> x < 2 powi (expo x + 1)"
proof (cases "1 \<le> x")
  case True
  define n where "n = \<lfloor>x\<rfloor>"
  have n: "1 \<le> n" "of_int n \<le> x" "x < of_int n + 1"
    using True floor_correct [of x] by (auto simp: n_def le_floor_iff)
  then have npos: "0 < n" by simp
  from bitlen_bounds [OF npos]
  have b: "2 ^ nat (bitlen n - 1) \<le> n" "n < 2 ^ nat (bitlen n)" by auto
  have bl: "1 \<le> bitlen n" using npos by (simp add: bitlen_alt_def)
  have e: "expo x = bitlen n - 1" using True by (simp add: expo_def n_def)
  have lo: "(2::rat) powi (bitlen n - 1) \<le> x"
  proof -
    have "(2::rat) powi (bitlen n - 1) = 2 ^ nat (bitlen n - 1)"
      using bl by (simp add: power_int_def)
    also have "\<dots> = of_int (2 ^ nat (bitlen n - 1))" by simp
    also have "\<dots> \<le> of_int n" using b(1) by (simp only: of_int_le_iff)
    also have "\<dots> \<le> x" by (rule n(2))
    finally show ?thesis .
  qed
  have hi: "x < (2::rat) powi (bitlen n - 1 + 1)"
  proof -
    have "n + 1 \<le> 2 ^ nat (bitlen n)" using b(2) by simp
    then have "(of_int (n + 1) :: rat) \<le> of_int (2 ^ nat (bitlen n))"
      by (simp only: of_int_le_iff)
    then have "of_int n + 1 \<le> (2::rat) ^ nat (bitlen n)" by simp
    moreover have "(2::rat) powi (bitlen n - 1 + 1) = 2 ^ nat (bitlen n)"
      using bl by (simp add: power_int_def)
    ultimately show ?thesis using n(3) by simp
  qed
  show ?thesis using lo hi e by simp
next
  case False
  then have x1: "x < 1" by simp
  define z where "z = 1 / x"
  define n where "n = \<lfloor>z\<rfloor>"
  define l where "l = bitlen n"
  have z1: "1 < z" using assms x1 by (simp add: z_def)
  have n: "1 \<le> n" "of_int n \<le> z" "z < of_int n + 1"
    using z1 floor_correct [of z] by (auto simp: n_def le_floor_iff)
  then have npos: "0 < n" by simp
  from bitlen_bounds [OF npos]
  have b: "2 ^ nat (l - 1) \<le> n" "n < 2 ^ nat l" by (auto simp: l_def)
  have bl: "1 \<le> l" using npos by (simp add: bitlen_alt_def l_def)
  have zhi: "z < 2 ^ nat l"
  proof -
    have "n + 1 \<le> 2 ^ nat l" using b(2) by simp
    then have "(of_int (n + 1) :: rat) \<le> of_int (2 ^ nat l)"
      by (simp only: of_int_le_iff)
    then show ?thesis using n(3) by simp
  qed
  have xz: "x = 1 / z" using assms by (simp add: z_def)
  have zpos: "0 < z" using z1 by simp
  have lo: "(2::rat) powi (- l) < x"
  proof -
    have "(2::rat) powi (- l) = 1 / 2 ^ nat l"
      using bl by (simp add: power_int_def field_simps)
    also have "\<dots> < 1 / z"
      using zhi zpos by (simp add: frac_less2)
    finally show ?thesis using xz by simp
  qed
  have e: "expo x = (if 2 powi (1 - l) \<le> x then 1 - l else - l)"
    using False by (simp add: expo_def Let_def l_def n_def z_def)
  show ?thesis
  proof (cases "2 powi (1 - l) \<le> x")
    case True
    have zlo: "2 ^ nat (l - 1) \<le> z"
    proof -
      have "(2::rat) ^ nat (l - 1) = of_int (2 ^ nat (l - 1))" by simp
      also have "\<dots> \<le> of_int n" using b(1) by (simp only: of_int_le_iff)
      also have "\<dots> \<le> z" by (rule n(2))
      finally show ?thesis .
    qed
    have "x \<le> 1 / 2 ^ nat (l - 1)"
      using zlo zpos xz by (simp add: frac_le)
    also have "\<dots> = (2::rat) powi (1 - l)"
      using bl by (simp add: power_int_def field_simps)
    also have "\<dots> < 2 powi (1 - l + 1)"
      by (rule powi_strict_mono) simp
    finally show ?thesis using True e by simp
  next
    case F: False
    then show ?thesis using lo e by (simp add: less_imp_le)
  qed
qed

lemma expo_unique:
  assumes "2 powi e \<le> x" and "x < 2 powi (e + 1)"
  shows "expo x = e"
proof -
  have xpos: "0 < x" using assms(1) powi_pos [of e] by linarith
  from expo_bounds [OF xpos]
  have b: "2 powi (expo x) \<le> x" "x < 2 powi (expo x + 1)" by auto
  have "\<not> expo x < e"
  proof
    assume "expo x < e"
    then have "expo x + 1 \<le> e" by simp
    from powi_mono [OF this] b(2) assms(1) show False by linarith
  qed
  moreover have "\<not> e < expo x"
  proof
    assume "e < expo x"
    then have "e + 1 \<le> expo x" by simp
    from powi_mono [OF this] b(1) assms(2) show False by linarith
  qed
  ultimately show ?thesis by simp
qed

lemma round53_eval:
  assumes "2 powi e \<le> x" and "x < 2 powi (e + 1)"
      and "of_int m - 1/2 < x * 2 powi (52 - e)" and "x * 2 powi (52 - e) < of_int m + 1/2"
  shows "round53 x = of_int m * 2 powi (e - 52)"
proof -
  have xpos: "0 < x" using assms(1) powi_pos [of e] by linarith
  have e: "expo x = e" using assms(1,2) by (rule expo_unique)
  have "rne (x * 2 powi (52 - e)) = m" using assms(3,4) by (rule rne_near)
  then show ?thesis using xpos e by (simp add: round53_def Let_def)
qed

text \<open>
  The percentage of \<open>a\<close> correct answers out of \<open>b\<close>, computed step by step: the
  quotient rounds to the significand \<open>m1\<close> at exponent \<open>e1\<close>, its product with 100 to
  \<open>m2\<close> at \<open>e2\<close>, and \<^verbatim>\<open>Math.round\<close> gives \<open>n\<close>.
\<close>

lemma percentage_of_eval:
  assumes "0 < b"
      and "2 powi e1 \<le> (of_nat a / of_nat b :: rat)"
      and "(of_nat a / of_nat b :: rat) < 2 powi (e1 + 1)"
      and "of_int m1 - 1/2 < (of_nat a / of_nat b :: rat) * 2 powi (52 - e1)"
      and "(of_nat a / of_nat b :: rat) * 2 powi (52 - e1) < of_int m1 + 1/2"
      and "2 powi e2 \<le> (of_int m1 * 2 powi (e1 - 52) * 100 :: rat)"
      and "(of_int m1 * 2 powi (e1 - 52) * 100 :: rat) < 2 powi (e2 + 1)"
      and "of_int m2 - 1/2 < (of_int m1 * 2 powi (e1 - 52) * 100 :: rat) * 2 powi (52 - e2)"
      and "(of_int m1 * 2 powi (e1 - 52) * 100 :: rat) * 2 powi (52 - e2) < of_int m2 + 1/2"
      and "of_int n \<le> (of_int m2 * 2 powi (e2 - 52) + 1/2 :: rat)"
      and "(of_int m2 * 2 powi (e2 - 52) + 1/2 :: rat) < of_int n + 1"
  shows "percentage_of a b = Fin (of_int n)"
proof -
  have q: "round53 (of_nat a / of_nat b) = of_int m1 * 2 powi (e1 - 52)"
    using assms(2-5) by (rule round53_eval)
  have p: "round53 (of_int m1 * 2 powi (e1 - 52) * 100) = of_int m2 * 2 powi (e2 - 52)"
    using assms(6-9) by (rule round53_eval)
  have f: "\<lfloor>(of_int m2 * 2 powi (e2 - 52) + 1/2 :: rat)\<rfloor> = n"
    using assms(10,11) by (intro floor_unique) simp_all
  have "percentage_of a b = math_round (fmul (Fin (round53 (of_nat a / of_nat b))) 100)"
    using assms(1) by (simp add: percentage_of_def fdiv_def)
  also have "\<dots> = math_round (Fin (round53 (of_int m1 * 2 powi (e1 - 52) * 100)))"
    by (simp only: q fmul.simps of_nat_numeral)
  also have "\<dots> = Fin (of_int n)"
    by (simp only: p math_round.simps f)
  finally show ?thesis .
qed

lemma percentage_of_3_4: "percentage_of 3 4 = Fin 75"
  using percentage_of_eval [of 4 "-1" 3 6755399441055744 6 5277655813324800 75]
  by (simp add: power_int_minus)


lemma percentage_of_23_40: "percentage_of 23 40 = Fin 57"
  using percentage_of_eval [of 40 "-1" 23 5179139571476070 5 8092405580431359 57]
  by (simp add: power_int_minus)

lemma percentage_of_1_8: "percentage_of 1 8 = Fin 13"
  using percentage_of_eval [of 8 "-3" 1 4503599627370496 3 7036874417766400 13]
  by (simp add: power_int_minus)

lemma percentage_of_29_200: "percentage_of 29 200 = Fin 14"
  using percentage_of_eval [of 200 "-3" 29 5224175567749775 3 8162774324609023 14]
  by (simp add: power_int_minus)

lemma percentage_of_1_1: "percentage_of 1 1 = Fin 100"
  using percentage_of_eval [of 1 0 1 4503599627370496 6 7036874417766400 100]
  by (simp add: power_int_minus)

lemma percentage_of_3_4_Suc:
  "percentage_of (Suc (Suc (Suc 0))) (Suc (Suc (Suc (Suc 0)))) = Fin 75"
  using percentage_of_3_4 by (simp only: eval_nat_numeral BitM.simps)

section \<open>The error of the computed percentage\<close>

lemma round53_error:
  assumes "0 < x"
  shows "\<bar>round53 x - x\<bar> \<le> 2 powi (expo x - 53)"
proof -
  define k where "k = 52 - expo x"
  define y where "y = x * 2 powi k"
  have inv: "(2::rat) powi k * 2 powi (- k) = 1"
    by (simp add: power_int_minus)
  have r: "round53 x = of_int (rne y) * 2 powi (- k)"
    using assms by (simp add: round53_def Let_def k_def y_def)
  have x: "x = y * 2 powi (- k)"
    using inv by (simp add: y_def mult.assoc)
  have "round53 x - x = (of_int (rne y) - y) * 2 powi (- k)"
  proof -
    have "(of_int (rne y) - y) * 2 powi (- k)
            = of_int (rne y) * 2 powi (- k) - y * 2 powi (- k)"
      by (simp add: algebra_simps)
    also have "\<dots> = round53 x - x"
      using r x [symmetric] by simp
    finally show ?thesis by simp
  qed
  then have "\<bar>round53 x - x\<bar> = \<bar>of_int (rne y) - y\<bar> * 2 powi (- k)"
    using powi_pos [of "- k"] by (simp add: abs_mult)
  also have "\<dots> \<le> (1/2) * 2 powi (- k)"
    using rne_error [of y] powi_pos [of "- k"] by (intro mult_right_mono) simp_all
  also have "\<dots> = 2 powi (- 1) * 2 powi (- k)" by simp
  also have "\<dots> = 2 powi (- 1 + - k)" by (rule power_int_add [symmetric]) simp
  also have "- 1 + - k = expo x - 53" by (simp add: k_def)
  finally show ?thesis .
qed

lemma expo_le:
  assumes "0 < x" and "x \<le> 2 powi m"
  shows "expo x \<le> m"
proof (rule ccontr)
  assume "\<not> expo x \<le> m"
  then have "m + 1 \<le> expo x" by simp
  from powi_mono [OF this] expo_bounds [OF assms(1)] have "2 powi (m + 1) \<le> x" by simp
  with assms(2) powi_strict_mono [of m "m + 1"] show False by simp
qed

lemma round53_error_le:
  assumes "0 < x" and "x \<le> 2 powi m"
  shows "\<bar>round53 x - x\<bar> \<le> 2 powi (m - 53)"
proof -
  have "expo x - 53 \<le> m - 53" using expo_le [OF assms] by simp
  from powi_mono [OF this] round53_error [OF assms(1)] show ?thesis by simp
qed

text \<open>
  How far the handler's percentage is from the exact one, for a test of fewer than
  \<open>2 ^ 32\<close> questions (the most a JavaScript array holds): it is always an integer within
  one half of \<open>100 * s / n\<close>, and it is \<open>100 * s / n\<close> rounded to the nearest integer
  unless \<open>100 * s / n\<close> lies exactly halfway between two integers.
\<close>

lemma percentage_of_near:
  assumes n: "0 < n" "n < 2 ^ 32" and s: "s \<le> n"
  shows "\<exists>k. percentage_of s n = Fin (of_int k)
           \<and> \<bar>of_int k - (100 * of_nat s / of_nat n :: rat)\<bar> \<le> 1/2
           \<and> (\<not> 2 * n dvd 200 * s + n \<longrightarrow> k = \<lfloor>(100 * of_nat s / of_nat n + 1/2 :: rat)\<rfloor>)"
proof (cases "s = 0")
  case True
  have half: "\<lfloor>(1/2::rat)\<rfloor> = 0" by (rule floor_unique) simp_all
  then have "percentage_of 0 n = Fin (of_int 0)"
    using n by (simp add: percentage_of_def fdiv_def round53_def)
  then show ?thesis using True half by (intro exI [of _ 0]) simp
next
  case False
  define q :: rat where "q = of_nat s / of_nat n"
  define qh where "qh = round53 q"
  define ph where "ph = round53 (qh * 100)"
  define x :: rat where "x = 100 * of_nat s / of_nat n"
  define eps :: rat where "eps = 2 powi (- 44)"
  have npos: "(0::rat) < of_nat n" using n by simp
  have nlt: "(of_nat n :: rat) < 2 ^ 32"
  proof -
    have "(of_nat n :: rat) < of_nat (2 ^ 32)" using n(2) by (simp only: of_nat_less_iff)
    then show ?thesis by simp
  qed
  have qpos: "0 < q" using False n by (simp add: q_def)
  have q1: "q \<le> 2 powi 0" using s n by (simp add: q_def)
  have qlo: "1 / 2 ^ 32 < q"
  proof -
    have "1 / 2 ^ 32 < 1 / (of_nat n :: rat)"
      using nlt npos by (simp add: frac_less2)
    also have "\<dots> \<le> q"
      using False npos by (simp add: q_def divide_right_mono)
    finally show ?thesis .
  qed
  have qe: "\<bar>qh - q\<bar> \<le> 2 powi (- 53)"
    using round53_error_le [OF qpos q1] by (simp add: qh_def)
  have qhpos: "0 < qh"
  proof -
    have "(2::rat) powi (- 53) < 1 / 2 ^ 32" by (simp add: power_int_minus)
    with qe qlo show ?thesis by linarith
  qed
  have qh2: "qh \<le> 2"
  proof -
    have "(2::rat) powi (- 53) \<le> 1" by (simp add: power_int_minus)
    moreover have "q \<le> 1" using q1 by simp
    ultimately show ?thesis using qe by linarith
  qed
  have ppos: "0 < qh * 100" using qhpos by simp
  have p8: "qh * 100 \<le> 2 powi 8" using qh2 by simp
  have pe: "\<bar>ph - qh * 100\<bar> \<le> 2 powi (- 45)"
    using round53_error_le [OF ppos p8] by (simp add: ph_def)
  have xq: "x = q * 100" by (simp add: x_def q_def)
  have close: "\<bar>ph - x\<bar> < eps"
  proof -
    have "ph - x = (ph - qh * 100) + 100 * (qh - q)"
      by (simp add: xq algebra_simps)
    then have "\<bar>ph - x\<bar> \<le> \<bar>ph - qh * 100\<bar> + \<bar>100 * (qh - q)\<bar>"
      by (simp only: abs_triangle_ineq)
    also have "\<bar>100 * (qh - q)\<bar> = 100 * \<bar>qh - q\<bar>"
      by (simp only: abs_mult abs_numeral)
    finally have "\<bar>ph - x\<bar> \<le> \<bar>ph - qh * 100\<bar> + 100 * \<bar>qh - q\<bar>" .
    also have "\<dots> \<le> 2 powi (- 45) + 100 * 2 powi (- 53)"
      using pe qe by (intro add_mono mult_left_mono) simp_all
    also have "\<dots> < eps" by (simp add: eps_def power_int_minus)
    finally show ?thesis .
  qed
  have run: "percentage_of s n = Fin (of_int \<lfloor>ph + 1/2\<rfloor>)"
    using n by (simp add: percentage_of_def fdiv_def ph_def qh_def q_def)
  define a :: int where "a = 200 * int s + int n"
  define d :: int where "d = 2 * int n"
  define k0 where "k0 = a div d"
  define rm where "rm = a mod d"
  have dpos: "0 < d" using n by (simp add: d_def)
  have a: "a = k0 * d + rm" by (simp add: k0_def rm_def)
  have rm: "0 \<le> rm" "rm < d" using dpos by (simp_all add: rm_def)
  have dr: "(of_int d :: rat) = 2 * of_nat n" by (simp add: d_def)
  have drpos: "(0::rat) < of_int d" using dpos by simp
  have y: "x + 1/2 = of_int k0 + of_int rm / of_int d"
  proof -
    have "x + 1/2 = of_int a / of_int d"
      using npos by (simp add: x_def a_def d_def field_simps)
    also have "\<dots> = of_int k0 + of_int rm / of_int d"
      using drpos by (simp add: a field_simps)
    finally show ?thesis .
  qed
  have gap: "eps < 1 / of_int d"
  proof -
    have "(of_int d :: rat) < 2 ^ 33" using nlt by (simp add: dr)
    then have "1 / 2 ^ 33 < 1 / (of_int d :: rat)"
      using drpos by (simp add: frac_less2)
    moreover have "eps < 1 / 2 ^ 33" by (simp add: eps_def power_int_minus)
    ultimately show ?thesis by simp
  qed
  have tie: "2 * n dvd 200 * s + n \<longleftrightarrow> rm = 0"
  proof -
    have "2 * n dvd 200 * s + n \<longleftrightarrow> int (2 * n) dvd int (200 * s + n)"
      by (simp only: int_dvd_int_iff)
    also have "\<dots> \<longleftrightarrow> d dvd a" by (simp add: a_def d_def)
    also have "\<dots> \<longleftrightarrow> rm = 0" by (simp add: rm_def dvd_eq_mod_eq_0)
    finally show ?thesis .
  qed
  from close have c: "x - eps < ph" "ph < x + eps" by (simp_all add: abs_less_iff) 
  show ?thesis
  proof (cases "rm = 0")
    case True
    then have yk: "x + 1/2 = of_int k0" using y by simp
    have eps1: "eps < 1" by (simp add: eps_def power_int_minus)
    have lo: "of_int (k0 - 1) \<le> ph + 1/2" using c(1) yk eps1 by simp
    have hi: "ph + 1/2 < of_int (k0 + 1)" using c(2) yk eps1 by simp
    have fl: "\<lfloor>ph + 1/2\<rfloor> = k0 - 1 \<or> \<lfloor>ph + 1/2\<rfloor> = k0"
    proof -
      have "k0 - 1 \<le> \<lfloor>ph + 1/2\<rfloor>" using lo by (simp only: le_floor_iff)
      moreover have "\<lfloor>ph + 1/2\<rfloor> < k0 + 1" using hi by (simp only: floor_less_iff)
      ultimately show ?thesis by linarith
    qed
    have xk: "x = of_int k0 - 1/2" using yk by simp
    have "\<bar>of_int \<lfloor>ph + 1/2\<rfloor> - x\<bar> \<le> 1/2"
      using fl by (auto simp: xk)
    with run tie True show ?thesis
      by (intro exI [of _ "\<lfloor>ph + 1/2\<rfloor>"]) (simp add: x_def)
  next
    case False
    with rm have r1: "1 \<le> rm" "rm \<le> d - 1" by simp_all
    define g :: rat where "g = 1 / of_int d"
    define fr :: rat where "fr = of_int rm / of_int d"
    have gpos: "0 < g" using drpos by (simp add: g_def)
    have eg: "eps < g" using gap by (simp add: g_def)
    have yf: "x + 1/2 = of_int k0 + fr" using y by (simp add: fr_def)
    have f1: "g \<le> fr"
      using r1(1) drpos by (simp add: g_def fr_def divide_right_mono)
    have f2: "fr \<le> 1 - g"
    proof -
      have "(of_int rm :: rat) \<le> of_int (d - 1)" using r1(2) by (simp only: of_int_le_iff)
      then have "of_int rm / (of_int d :: rat) \<le> of_int (d - 1) / of_int d"
        using drpos by (simp add: divide_right_mono)
      also have "\<dots> = 1 - 1 / of_int d" using drpos by (simp add: field_simps)
      finally show ?thesis by (simp add: g_def fr_def)
    qed
    have lo: "of_int k0 \<le> ph + 1/2" using c(1) yf f1 eg by linarith
    have hi: "ph + 1/2 < of_int k0 + 1" using c(2) yf f2 eg by linarith
    have fl: "\<lfloor>ph + 1/2\<rfloor> = k0" using lo hi by (intro floor_unique) simp_all
    have fx: "\<lfloor>x + 1/2\<rfloor> = k0"
    proof (rule floor_unique)
      show "of_int k0 \<le> x + 1/2" using yf f1 gpos by linarith
      show "x + 1/2 < of_int k0 + 1" using yf f2 gpos by linarith
    qed
    have ab: "\<bar>of_int k0 - x\<bar> \<le> 1/2"
      using yf f1 f2 gpos by linarith
    from run fl fx ab show ?thesis
      by (intro exI [of _ k0]) (simp add: x_def)
  qed
qed

section \<open>The example submission\<close>

text \<open>
  The scenario of the specification: correct options 0, 1, 2, 3 and answers 0, 1, 9, 3
  give the score 3 of 4 and 75 percent.
\<close>

lemma ex_submission_graded:
  "\<exists>r. submit_test ex_learner_token 1700000000500 ex_submission ex_store
        = (Inr \<lparr>sr_score = 3, sr_totalQuestions = 4, sr_percentage = JNum 75\<rparr>,
           ex_store\<lparr>results := [r]\<rparr>)
      \<and> r_userId r = ''1700000000001'' \<and> r_score r = 3 \<and> r_percentage r = JNum 75
      \<and> map isCorrect (r_questionResults r) = [True, True, False, True]"
  by (simp add: submit_test_def ex_submission_def ex_store_def ex_test_def ex_question_def
      ex_learner_token_def Let_def percentage_of_3_4_Suc)

section \<open>What a learner is shown\<close>





text \<open>
  C9. For a caller whose account is not an administrator's, GET /api/tests returns the
  tests of the caller's direction, in catalogue order, so every returned test has the
  caller's direction; for an administrator's account it returns every test.
\<close>

theorem get_tests_by_direction:
  assumes "find (\<lambda>u. u_id u = userId tok) (users s) = Some user"
  shows "\<exists>resp. get_tests tok s = Inr resp
           \<and> (\<not> u_isAdmin user \<longrightarrow>
                 map fst resp = filter (\<lambda>t. t_direction t = u_direction user) (tests s)
                 \<and> (\<forall>t \<in> set (map fst resp). t_direction t = u_direction user))
           \<and> (u_isAdmin user \<longrightarrow> map fst resp = tests s)"
  using assms by (simp add: get_tests_def Let_def comp_def)

theorem get_tests_by_direction_witness:
  "find (\<lambda>u. u_id u = userId ex_learner_token) (users ex_store) = Some ex_learner
   \<and> \<not> u_isAdmin ex_learner
   \<and> (\<exists>resp. get_tests ex_learner_token ex_store = Inr resp
         \<and> map fst resp = [ex_test]
         \<and> (\<forall>t \<in> set (map fst resp). t_direction t = u_direction ex_learner))"
  using get_tests_by_direction [of ex_learner_token ex_store ex_learner]
  by (auto simp: ex_store_def ex_learner_token_def ex_learner_def ex_admin_def ex_test_def)

section \<open>Whose result a submission records\<close>

text \<open>
  C10. A successful POST /api/submit-test appends exactly one result, and its account
  reference is the subject of the bearer token. A \<open>userId\<close> property in the request body,
  present or absent and whatever its value, changes neither the response nor what is
  stored.
\<close>

theorem submit_test_subject:
  assumes "submit_test tok now body s = (Inr resp, s')"
  shows "(\<exists>r. s' = s\<lparr>results := results s @ [r]\<rparr> \<and> r_userId r = userId tok)
         \<and> (\<forall>v. submit_test tok now (body(''userId'' := v)) s = (Inr resp, s'))"
proof
  show "\<exists>r. s' = s\<lparr>results := results s @ [r]\<rparr> \<and> r_userId r = userId tok"
    using assms
    by (auto simp: submit_test_def Let_def split: if_splits option.splits sum.splits prod.splits)
  have "submit_test tok now (body(''userId'' := v)) s = submit_test tok now body s" for v
    by (simp add: submit_test_def)
  with assms show "\<forall>v. submit_test tok now (body(''userId'' := v)) s = (Inr resp, s')"
    by simp
qed

theorem submit_test_subject_witness:
  "\<exists>resp s'. submit_test ex_learner_token 1700000000500
                 (ex_submission(''userId'' \<mapsto> JStr ''1'')) ex_store = (Inr resp, s')
      \<and> (\<exists>r. s' = ex_store\<lparr>results := results ex_store @ [r]\<rparr>
               \<and> r_userId r = ''1700000000001'')"
proof -
  from ex_submission_graded obtain r where
    run: "submit_test ex_learner_token 1700000000500 ex_submission ex_store
        = (Inr \<lparr>sr_score = 3, sr_totalQuestions = 4, sr_percentage = JNum 75\<rparr>,
           ex_store\<lparr>results := [r]\<rparr>)"
    by blast
  from submit_test_subject [OF run]
  show ?thesis
    by (auto simp: ex_learner_token_def)
qed

section \<open>Deleting a direction\<close>

text \<open>
  C7, as amended. For an administrator's DELETE /api/admin/directions/:id on a direction
  that exists: when an account or a test references the id, the call fails with status
  400 (the direction is in use) and nothing is written; when neither does, it succeeds
  and the first direction with that id is cut out of the collection, which loses that
  one entry and gains none. When the identifiers of the collection are distinct, no
  direction with that id is left.
\<close>

theorem delete_direction_referenced:
  assumes admin: "isAdmin tok"
      and ex: "d \<in> set (directions s)" "d_id d = directionId"
  shows "((\<exists>u \<in> set (users s). u_direction u = directionId)
            \<or> (\<exists>t \<in> set (tests s). t_direction t = directionId) \<longrightarrow>
          (\<exists>e. delete_direction tok directionId s = (Inl e, s)
               \<and> (e = DirectionInUseByUsers \<or> e = DirectionInUseByTests) \<and> status e = 400))
       \<and> (\<not> ((\<exists>u \<in> set (users s). u_direction u = directionId)
              \<or> (\<exists>t \<in> set (tests s). t_direction t = directionId)) \<longrightarrow>
          (\<exists>i s'. delete_direction tok directionId s = (Inr (), s')
               \<and> findIndex (\<lambda>d. d_id d = directionId) (directions s) = Some i
               \<and> s' = s\<lparr>directions := splice1 i (directions s)\<rparr>
               \<and> length (directions s') = length (directions s) - 1
               \<and> set (directions s') \<subseteq> set (directions s)
               \<and> (distinct (map d_id (directions s)) \<longrightarrow>
                    directionId \<notin> d_id ` set (directions s'))))"
proof -
  from findIndex_ex [of d "directions s" "\<lambda>d. d_id d = directionId"] ex
  obtain i where i: "findIndex (\<lambda>d. d_id d = directionId) (directions s) = Some i" by blast
  from findIndex_Some [OF i]
  have il: "i < length (directions s)" and id: "d_id (directions s ! i) = directionId" by auto
  show ?thesis
  proof (intro conjI impI)
    assume "(\<exists>u \<in> set (users s). u_direction u = directionId)
            \<or> (\<exists>t \<in> set (tests s). t_direction t = directionId)"
    then show "\<exists>e. delete_direction tok directionId s = (Inl e, s)
               \<and> (e = DirectionInUseByUsers \<or> e = DirectionInUseByTests) \<and> status e = 400"
      using admin i by (auto simp: delete_direction_def list_ex_iff)
  next
    assume free: "\<not> ((\<exists>u \<in> set (users s). u_direction u = directionId)
              \<or> (\<exists>t \<in> set (tests s). t_direction t = directionId))"
    let ?s' = "s\<lparr>directions := splice1 i (directions s)\<rparr>"
    have run: "delete_direction tok directionId s = (Inr (), ?s')"
      using admin i free by (auto simp: delete_direction_def list_ex_iff)
    have gone: "distinct (map d_id (directions s)) \<longrightarrow> directionId \<notin> d_id ` set (directions ?s')"
      using set_splice1_distinct [of d_id "directions s" i] il id by auto
    show "\<exists>i s'. delete_direction tok directionId s = (Inr (), s')
               \<and> findIndex (\<lambda>d. d_id d = directionId) (directions s) = Some i
               \<and> s' = s\<lparr>directions := splice1 i (directions s)\<rparr>
               \<and> length (directions s') = length (directions s) - 1
               \<and> set (directions s') \<subseteq> set (directions s)
               \<and> (distinct (map d_id (directions s)) \<longrightarrow>
                    directionId \<notin> d_id ` set (directions s'))"
      using run i gone length_splice1 [OF il] set_splice1_subset [of i "directions s"]
      by (intro exI [of _ i] exI [of _ ?s']) simp
  qed
qed

theorem delete_direction_referenced_witness:
  "isAdmin ex_admin_token
   \<and> \<lparr>d_id = ''1'', d_name = JStr ''Dasturlash''\<rparr> \<in> set (directions ex_store)
   \<and> \<lparr>d_id = ''2'', d_name = JStr ''Dizayn''\<rparr> \<in> set (directions ex_store)
   \<and> distinct (map d_id (directions ex_store))
   \<and> delete_direction ex_admin_token ''1'' ex_store = (Inl DirectionInUseByUsers, ex_store)
   \<and> delete_direction ex_admin_token ''2'' ex_store
       = (Inr (), ex_store\<lparr>directions := [\<lparr>d_id = ''1'', d_name = JStr ''Dasturlash''\<rparr>]\<rparr>)
   \<and> ''2'' \<notin> d_id ` set (directions (snd (delete_direction ex_admin_token ''2'' ex_store)))"
  using delete_direction_referenced
          [of ex_admin_token "\<lparr>d_id = ''1'', d_name = JStr ''Dasturlash''\<rparr>" ex_store "''1''"]
        delete_direction_referenced
          [of ex_admin_token "\<lparr>d_id = ''2'', d_name = JStr ''Dizayn''\<rparr>" ex_store "''2''"]
  by (simp add: ex_store_def ex_admin_token_def ex_admin_def ex_learner_def ex_test_def
      delete_direction_def splice1_def)

lemma ex_dup_store:
  "ex_dup_store
     = ex_store\<lparr>directions :=
         [\<lparr>d_id = ''1'', d_name = JStr ''Dasturlash''\<rparr>, \<lparr>d_id = ''2'', d_name = JStr ''Dizayn''\<rparr>,
          \<lparr>d_id = ''1700000003000'', d_name = JStr ''Marketing''\<rparr>,
          \<lparr>d_id = ''1700000003000'', d_name = JStr ''Tillar''\<rparr>]\<rparr>"
  by (simp add: ex_dup_store_def add_direction_def ex_admin_token_def ex_name_body_def
      ex_name_body'_def ex_store_def show_nat_1700000003000 Let_def)

text \<open>
  C7 as stated fails when two directions share an identifier, which happens when two are
  added within one millisecond (the identifier is the clock value, and only the name is
  checked for duplicates): the deletion succeeds, and a direction with that id is still
  stored and listed.
\<close>

theorem delete_direction_duplicate_counterexample:
  "api_step\<^sup>*\<^sup>* ex_store ex_dup_store
   \<and> \<not> list_ex (\<lambda>u. u_direction u = ''1700000003000'') (users ex_dup_store)
   \<and> \<not> list_ex (\<lambda>t. t_direction t = ''1700000003000'') (tests ex_dup_store)
   \<and> fst (delete_direction ex_admin_token ''1700000003000'' ex_dup_store) = Inr ()
   \<and> directions (snd (delete_direction ex_admin_token ''1700000003000'' ex_dup_store))
       = [\<lparr>d_id = ''1'', d_name = JStr ''Dasturlash''\<rparr>, \<lparr>d_id = ''2'', d_name = JStr ''Dizayn''\<rparr>,
          \<lparr>d_id = ''1700000003000'', d_name = JStr ''Tillar''\<rparr>]
   \<and> ''1700000003000''
       \<in> d_id ` set (directions (snd (delete_direction ex_admin_token ''1700000003000'' ex_dup_store)))"
proof -
  have "api_step ex_store (snd (add_direction ex_admin_token 1700000003000 ex_name_body ex_store))"
    by (rule api_step.step_add_direction)
  moreover have "api_step (snd (add_direction ex_admin_token 1700000003000 ex_name_body ex_store))
                   ex_dup_store"
    unfolding ex_dup_store_def by (rule api_step.step_add_direction)
  ultimately have r: "api_step\<^sup>*\<^sup>* ex_store ex_dup_store" by auto
  have "\<not> list_ex (\<lambda>u. u_direction u = ''1700000003000'') (users ex_dup_store)
   \<and> \<not> list_ex (\<lambda>t. t_direction t = ''1700000003000'') (tests ex_dup_store)
   \<and> fst (delete_direction ex_admin_token ''1700000003000'' ex_dup_store) = Inr ()
   \<and> directions (snd (delete_direction ex_admin_token ''1700000003000'' ex_dup_store))
       = [\<lparr>d_id = ''1'', d_name = JStr ''Dasturlash''\<rparr>, \<lparr>d_id = ''2'', d_name = JStr ''Dizayn''\<rparr>,
          \<lparr>d_id = ''1700000003000'', d_name = JStr ''Tillar''\<rparr>]"
    by (simp add: ex_dup_store delete_direction_def ex_store_def ex_admin_token_def ex_admin_def
        ex_learner_def ex_test_def splice1_def)
  with r show ?thesis by simp
qed

section \<open>Verification codes\<close>

lemma verify_code_missing_fields:
  "\<not> truthy (body ''telegram'') \<or> \<not> truthy (body ''code'')
   \<Longrightarrow> verify_code now body s = (Inl MissingFields, s)"
  by (auto simp: verify_code_def Let_def)

text \<open>What a request that carries a telegram name and a code does.\<close>

lemma verify_code_cases:
  assumes "truthy (body ''telegram'')" and "truthy (body ''code'')"
  shows "((\<exists>s'. verify_code now body s = (Inr (), s')) \<longleftrightarrow>
            (\<exists>v \<in> set (verifications s).
                strict_eq (Some (v_telegram v)) (body ''telegram'')
                \<and> strict_eq (Some (JStr (v_code v))) (body ''code'') \<and> now < v_expiresAt v))
       \<and> (\<not> (\<exists>v \<in> set (verifications s).
                strict_eq (Some (v_telegram v)) (body ''telegram'')
                \<and> strict_eq (Some (JStr (v_code v))) (body ''code'') \<and> now < v_expiresAt v) \<longrightarrow>
            verify_code now body s = (Inl InvalidOrExpired, s) \<and> status InvalidOrExpired = 400)
       \<and> (\<forall>s'. verify_code now body s = (Inr (), s') \<longrightarrow>
            (\<forall>v \<in> set (verifications s').
                \<not> (strict_eq (Some (v_telegram v)) (body ''telegram'')
                    \<and> strict_eq (Some (JStr (v_code v))) (body ''code'')))
            \<and> (\<forall>now'. verify_code now' body s' = (Inl InvalidOrExpired, s')))
       \<and> ((\<forall>v \<in> set (verifications s).
                strict_eq (Some (v_telegram v)) (body ''telegram'')
                \<and> strict_eq (Some (JStr (v_code v))) (body ''code'') \<longrightarrow> v_expiresAt v \<le> now) \<longrightarrow>
            verify_code now body s = (Inl InvalidOrExpired, s))"
proof -
  let ?m = "\<lambda>v. strict_eq (Some (v_telegram v)) (body ''telegram'')
                \<and> strict_eq (Some (JStr (v_code v))) (body ''code'')"
  let ?p = "\<lambda>v. strict_eq (Some (v_telegram v)) (body ''telegram'')
                \<and> strict_eq (Some (JStr (v_code v))) (body ''code'') \<and> now < v_expiresAt v"
  have none: "find ?p (verifications s) = None \<longleftrightarrow> \<not> (\<exists>v \<in> set (verifications s). ?p v)"
    by (auto simp: find_None_iff)
  have fail: "verify_code now body s = (Inl InvalidOrExpired, s)"
    if "\<not> (\<exists>v \<in> set (verifications s). ?p v)"
    using that assms none by (simp add: verify_code_def Let_def)
  have ok: "verify_code now body s
              = (Inr (), s\<lparr>verifications := filter (\<lambda>v. \<not> ?m v) (verifications s)\<rparr>)"
    if "\<exists>v \<in> set (verifications s). ?p v"
  proof -
    from that none obtain w where "find ?p (verifications s) = Some w"
      by (cases "find ?p (verifications s)") auto
    then show ?thesis using assms by (simp add: verify_code_def Let_def)
  qed
  have again: "verify_code now' body (s\<lparr>verifications := filter (\<lambda>v. \<not> ?m v) (verifications s)\<rparr>)
          = (Inl InvalidOrExpired, s\<lparr>verifications := filter (\<lambda>v. \<not> ?m v) (verifications s)\<rparr>)"
    for now'
  proof -
    have "find (\<lambda>v. strict_eq (Some (v_telegram v)) (body ''telegram'')
                \<and> strict_eq (Some (JStr (v_code v))) (body ''code'') \<and> now' < v_expiresAt v)
            (filter (\<lambda>v. \<not> ?m v) (verifications s)) = None"
      by (auto simp: find_None_iff)
    then show ?thesis using assms by (simp add: verify_code_def Let_def)
  qed
  show ?thesis
  proof (intro conjI)
    show "(\<exists>s'. verify_code now body s = (Inr (), s')) \<longleftrightarrow> (\<exists>v \<in> set (verifications s). ?p v)"
      using ok fail by (cases "\<exists>v \<in> set (verifications s). ?p v") auto
    show "\<not> (\<exists>v \<in> set (verifications s). ?p v) \<longrightarrow>
            verify_code now body s = (Inl InvalidOrExpired, s) \<and> status InvalidOrExpired = 400"
      using fail by simp
    show "\<forall>s'. verify_code now body s = (Inr (), s') \<longrightarrow>
            (\<forall>v \<in> set (verifications s'). \<not> ?m v)
            \<and> (\<forall>now'. verify_code now' body s' = (Inl InvalidOrExpired, s'))"
    proof (intro allI impI)
      fix s' assume run: "verify_code now body s = (Inr (), s')"
      have "\<exists>v \<in> set (verifications s). ?p v"
        using run fail by (cases "\<exists>v \<in> set (verifications s). ?p v") auto
      from ok [OF this] run
      have s': "s' = s\<lparr>verifications := filter (\<lambda>v. \<not> ?m v) (verifications s)\<rparr>" by simp
      show "(\<forall>v \<in> set (verifications s'). \<not> ?m v)
            \<and> (\<forall>now'. verify_code now' body s' = (Inl InvalidOrExpired, s'))"
        unfolding s' using again by auto
    qed
    show "(\<forall>v \<in> set (verifications s).
                strict_eq (Some (v_telegram v)) (body ''telegram'')
                \<and> strict_eq (Some (JStr (v_code v))) (body ''code'') \<longrightarrow> v_expiresAt v \<le> now) \<longrightarrow>
            verify_code now body s = (Inl InvalidOrExpired, s)"
    proof
      assume "\<forall>v \<in> set (verifications s).
                strict_eq (Some (v_telegram v)) (body ''telegram'')
                \<and> strict_eq (Some (JStr (v_code v))) (body ''code'') \<longrightarrow> v_expiresAt v \<le> now"
      then have "\<not> (\<exists>v \<in> set (verifications s). ?p v)" by auto
      then show "verify_code now body s = (Inl InvalidOrExpired, s)" by (rule fail)
    qed
  qed
qed

text \<open>The handlers keep the verification entries well formed.\<close>

lemma api_step_well_formed:
  assumes "api_step s s'" and "well_formed_entries s"
  shows "well_formed_entries s'"
  using assms
proof (induction rule: api_step.induct)
  case (step_send_verification s now code body)
  then show ?case
    by (auto simp: send_verification_def well_formed_entries_def list_all_iff show_nat_nonempty
        Let_def split: option.splits)
next
  case (step_verify_code s now body)
  then show ?case
    by (auto simp: verify_code_def well_formed_entries_def list_all_iff Let_def
        split: option.splits)
next
  case (step_submit_test s tok now body)
  then show ?case
    by (auto simp: submit_test_def well_formed_entries_def Let_def
        split: option.splits sum.splits prod.splits)
qed (auto simp: register_def create_test_def update_test_def delete_test_def add_direction_def
       delete_direction_def well_formed_entries_def Let_def split: option.splits sum.splits)

text \<open>
  C8. On a store whose verification entries are well formed, for every request:
  POST /api/verify-code succeeds exactly when a stored entry has the request's telegram
  name and code and the clock is strictly before its expiry. A success removes every
  entry with that name and code, so the same request fails with status 400 (wrong or
  expired code) at any later time. When entries with that name and code exist and each
  has expired (the clock at or past its expiry), the request fails with that error
  although the code matches, and nothing is written.
\<close>

theorem verify_code_single_use:
  assumes wf: "well_formed_entries s"
  shows "((\<exists>s'. verify_code now body s = (Inr (), s')) \<longleftrightarrow>
            (\<exists>v \<in> set (verifications s).
                strict_eq (Some (v_telegram v)) (body ''telegram'')
                \<and> strict_eq (Some (JStr (v_code v))) (body ''code'') \<and> now < v_expiresAt v))
       \<and> (\<forall>s'. verify_code now body s = (Inr (), s') \<longrightarrow>
            (\<forall>v \<in> set (verifications s').
                \<not> (strict_eq (Some (v_telegram v)) (body ''telegram'')
                    \<and> strict_eq (Some (JStr (v_code v))) (body ''code'')))
            \<and> (\<forall>now'. verify_code now' body s' = (Inl InvalidOrExpired, s')))
       \<and> ((\<exists>v \<in> set (verifications s).
                strict_eq (Some (v_telegram v)) (body ''telegram'')
                \<and> strict_eq (Some (JStr (v_code v))) (body ''code''))
            \<and> (\<forall>v \<in> set (verifications s).
                strict_eq (Some (v_telegram v)) (body ''telegram'')
                \<and> strict_eq (Some (JStr (v_code v))) (body ''code'') \<longrightarrow> v_expiresAt v \<le> now) \<longrightarrow>
            verify_code now body s = (Inl InvalidOrExpired, s) \<and> status InvalidOrExpired = 400)"
proof (cases "truthy (body ''telegram'') \<and> truthy (body ''code'')")
  case True
  then have t: "truthy (body ''telegram'')" "truthy (body ''code'')" by simp_all
  note vc = verify_code_cases [OF t, of now s]
  note a = vc [THEN conjunct1]
  note c = vc [THEN conjunct2, THEN conjunct2, THEN conjunct1]
  note d = vc [THEN conjunct2, THEN conjunct2, THEN conjunct2]
  show ?thesis
  proof (intro conjI impI)
    show "(\<exists>s'. verify_code now body s = (Inr (), s')) \<longleftrightarrow>
            (\<exists>v \<in> set (verifications s).
                strict_eq (Some (v_telegram v)) (body ''telegram'')
                \<and> strict_eq (Some (JStr (v_code v))) (body ''code'') \<and> now < v_expiresAt v)"
      by (rule a)
    show "\<forall>s'. verify_code now body s = (Inr (), s') \<longrightarrow>
            (\<forall>v \<in> set (verifications s').
                \<not> (strict_eq (Some (v_telegram v)) (body ''telegram'')
                    \<and> strict_eq (Some (JStr (v_code v))) (body ''code'')))
            \<and> (\<forall>now'. verify_code now' body s' = (Inl InvalidOrExpired, s'))"
      by (rule c)
    assume "(\<exists>v \<in> set (verifications s).
                strict_eq (Some (v_telegram v)) (body ''telegram'')
                \<and> strict_eq (Some (JStr (v_code v))) (body ''code''))
            \<and> (\<forall>v \<in> set (verifications s).
                strict_eq (Some (v_telegram v)) (body ''telegram'')
                \<and> strict_eq (Some (JStr (v_code v))) (body ''code'') \<longrightarrow> v_expiresAt v \<le> now)"
    then have "\<forall>v \<in> set (verifications s).
                strict_eq (Some (v_telegram v)) (body ''telegram'')
                \<and> strict_eq (Some (JStr (v_code v))) (body ''code'') \<longrightarrow> v_expiresAt v \<le> now"
      by (rule conjunct2)
    with d show "verify_code now body s = (Inl InvalidOrExpired, s)" by (rule mp)
    show "status InvalidOrExpired = 400" by simp
  qed
next
  case False
  then have miss: "verify_code now' body s = (Inl MissingFields, s)" for now'
    using verify_code_missing_fields [of body now' s] by blast
  have none: "\<not> (strict_eq (Some (v_telegram v)) (body ''telegram'')
                \<and> strict_eq (Some (JStr (v_code v))) (body ''code''))"
    if "v \<in> set (verifications s)" for v
  proof
    assume m: "strict_eq (Some (v_telegram v)) (body ''telegram'')
                \<and> strict_eq (Some (JStr (v_code v))) (body ''code'')"
    from wf that have w: "truthy (Some (v_telegram v))" "truthy (Some (JStr (v_code v)))"
      by (simp_all add: well_formed_entries_def list_all_iff)
    from m have m1: "strict_eq (Some (v_telegram v)) (body ''telegram'')"
      and m2: "strict_eq (Some (JStr (v_code v))) (body ''code'')" by simp_all
    from strict_eq_truthy [OF m1 w(1)] strict_eq_truthy [OF m2 w(2)] False
    show False by simp
  qed
  show ?thesis
  proof (intro conjI impI allI iffI)
    assume "\<exists>s'. verify_code now body s = (Inr (), s')"
    with miss show "\<exists>v \<in> set (verifications s).
                strict_eq (Some (v_telegram v)) (body ''telegram'')
                \<and> strict_eq (Some (JStr (v_code v))) (body ''code'') \<and> now < v_expiresAt v"
      by simp
  next
    assume "\<exists>v \<in> set (verifications s).
                strict_eq (Some (v_telegram v)) (body ''telegram'')
                \<and> strict_eq (Some (JStr (v_code v))) (body ''code'') \<and> now < v_expiresAt v"
    with none show "\<exists>s'. verify_code now body s = (Inr (), s')" by blast
  next
    fix s' assume "verify_code now body s = (Inr (), s')"
    with miss show "\<forall>v \<in> set (verifications s').
                \<not> (strict_eq (Some (v_telegram v)) (body ''telegram'')
                    \<and> strict_eq (Some (JStr (v_code v))) (body ''code''))"
      by simp
  next
    fix s' now' assume "verify_code now body s = (Inr (), s')"
    with miss show "verify_code now' body s' = (Inl InvalidOrExpired, s')" by simp
  next
    assume "(\<exists>v \<in> set (verifications s).
                strict_eq (Some (v_telegram v)) (body ''telegram'')
                \<and> strict_eq (Some (JStr (v_code v))) (body ''code''))
            \<and> (\<forall>v \<in> set (verifications s).
                strict_eq (Some (v_telegram v)) (body ''telegram'')
                \<and> strict_eq (Some (JStr (v_code v))) (body ''code'') \<longrightarrow> v_expiresAt v \<le> now)"
    with none show "verify_code now body s = (Inl InvalidOrExpired, s)" by blast
  next
    show "status InvalidOrExpired = 400" by simp
  qed
qed

theorem verify_code_single_use_witness:
  "well_formed_entries ex_store
   \<and> verify_code 299999 ex_verify_body ex_store = (Inr (), ex_store\<lparr>verifications := []\<rparr>)
   \<and> verify_code 299999 ex_verify_body (ex_store\<lparr>verifications := []\<rparr>)
       = (Inl InvalidOrExpired, ex_store\<lparr>verifications := []\<rparr>)
   \<and> verify_code 300000 ex_verify_body ex_store = (Inl InvalidOrExpired, ex_store)"
proof -
  have wf: "well_formed_entries ex_store"
    by (simp add: well_formed_entries_def ex_store_def ex_verification_def)
  have "verify_code 299999 ex_verify_body ex_store = (Inr (), ex_store\<lparr>verifications := []\<rparr>)"
    by (simp add: ex_verify_body_def ex_store_def ex_verification_def verify_code_def)
  with verify_code_single_use [OF wf, of 299999 ex_verify_body]
  have "verify_code 299999 ex_verify_body (ex_store\<lparr>verifications := []\<rparr>)
       = (Inl InvalidOrExpired, ex_store\<lparr>verifications := []\<rparr>)"
    by blast
  moreover have "verify_code 300000 ex_verify_body ex_store = (Inl InvalidOrExpired, ex_store)"
    by (simp add: ex_verify_body_def ex_store_def ex_verification_def verify_code_def)
  moreover note wf \<open>verify_code 299999 ex_verify_body ex_store = (Inr (), ex_store\<lparr>verifications := []\<rparr>)\<close>
  ultimately show ?thesis by simp
qed

section \<open>Grading a submission\<close>

text \<open>
  C5, as amended. For a submission that reaches grading (it carries a test id and a
  non-empty \<open>answers\<close> value, the test exists and the account has no result for it),
  whatever the \<open>answers\<close> value and its entries are: the call succeeds and stores one
  result with one outcome per question; the score is the number of outcomes marked
  correct; the outcome at position \<open>j\<close> holds what \<open>answers[j]\<close> reads, which is nothing
  when \<open>answers\<close> is an array shorter than \<open>j + 1\<close>; an outcome whose answer is absent is
  marked incorrect when the question has a correct-option marker, and so is any outcome
  whose answer differs from the marker.
\<close>

theorem grading_absent_answer:
  assumes tid: "truthy (body ''testId'')"
      and ans: "body ''answers'' = Some a" "truthy (Some a)"
      and found: "find (\<lambda>t. strict_eq (Some (JStr (t_id t))) (body ''testId'')) (tests s) = Some test"
      and fresh: "find (\<lambda>r. r_userId r = userId tok \<and> strict_eq (r_testId r) (body ''testId''))
                    (results s) = None"
  shows "\<exists>resp r. submit_test tok now body s = (Inr resp, s\<lparr>results := results s @ [r]\<rparr>)
           \<and> length (r_questionResults r) = length (t_questions test)
           \<and> r_score r = length (filter isCorrect (r_questionResults r))
           \<and> sr_score resp = r_score r
           \<and> (\<forall>j < length (t_questions test).
                js_index a j = Inr (userAnswer (r_questionResults r ! j))
                \<and> (\<forall>xs. a = JArr xs \<and> length xs \<le> j \<longrightarrow>
                      userAnswer (r_questionResults r ! j) = None)
                \<and> (userAnswer (r_questionResults r ! j) = None
                      \<and> (t_questions test ! j) ''correct'' \<noteq> None \<longrightarrow>
                    \<not> isCorrect (r_questionResults r ! j))
                \<and> (userAnswer (r_questionResults r ! j) \<noteq> (t_questions test ! j) ''correct'' \<longrightarrow>
                    \<not> isCorrect (r_questionResults r ! j)))"
proof -
  from submit_test_graded [OF tid ans found fresh, of now]
  obtain resp r where
    run: "submit_test tok now body s = (Inr resp, s\<lparr>results := results s @ [r]\<rparr>)"
    and l: "length (r_questionResults r) = length (t_questions test)"
    and sc: "r_score r = length (filter isCorrect (r_questionResults r))" "sr_score resp = r_score r"
    and each: "\<forall>j < length (t_questions test).
                js_index a j = Inr (userAnswer (r_questionResults r ! j))
                \<and> isCorrect (r_questionResults r ! j)
                    = strict_eq (userAnswer (r_questionResults r ! j))
                        ((t_questions test ! j) ''correct'')"
    by blast
  have ne: "\<not> strict_eq x y" if "x \<noteq> y" for x y
    using that by (cases "(x, y)" rule: strict_eq.cases) auto
  have "\<forall>j < length (t_questions test).
                js_index a j = Inr (userAnswer (r_questionResults r ! j))
                \<and> (\<forall>xs. a = JArr xs \<and> length xs \<le> j \<longrightarrow>
                      userAnswer (r_questionResults r ! j) = None)
                \<and> (userAnswer (r_questionResults r ! j) = None
                      \<and> (t_questions test ! j) ''correct'' \<noteq> None \<longrightarrow>
                    \<not> isCorrect (r_questionResults r ! j))
                \<and> (userAnswer (r_questionResults r ! j) \<noteq> (t_questions test ! j) ''correct'' \<longrightarrow>
                    \<not> isCorrect (r_questionResults r ! j))"
  proof (intro allI impI)
    fix j assume j: "j < length (t_questions test)"
    from each j have ix: "js_index a j = Inr (userAnswer (r_questionResults r ! j))"
      and c: "isCorrect (r_questionResults r ! j)
                = strict_eq (userAnswer (r_questionResults r ! j)) ((t_questions test ! j) ''correct'')"
      by auto
    have out: "\<forall>xs. a = JArr xs \<and> length xs \<le> j \<longrightarrow> userAnswer (r_questionResults r ! j) = None"
      using ix by auto
    have diff: "userAnswer (r_questionResults r ! j) \<noteq> (t_questions test ! j) ''correct'' \<longrightarrow>
                    \<not> isCorrect (r_questionResults r ! j)"
      using c ne by simp
    then have absent: "userAnswer (r_questionResults r ! j) = None
                      \<and> (t_questions test ! j) ''correct'' \<noteq> None \<longrightarrow>
                    \<not> isCorrect (r_questionResults r ! j)"
      by auto
    show "js_index a j = Inr (userAnswer (r_questionResults r ! j))
                \<and> (\<forall>xs. a = JArr xs \<and> length xs \<le> j \<longrightarrow>
                      userAnswer (r_questionResults r ! j) = None)
                \<and> (userAnswer (r_questionResults r ! j) = None
                      \<and> (t_questions test ! j) ''correct'' \<noteq> None \<longrightarrow>
                    \<not> isCorrect (r_questionResults r ! j))
                \<and> (userAnswer (r_questionResults r ! j) \<noteq> (t_questions test ! j) ''correct'' \<longrightarrow>
                    \<not> isCorrect (r_questionResults r ! j))"
      using ix out absent diff by blast
  qed
  with run l sc show ?thesis by blast
qed

theorem grading_absent_answer_witness:
  "truthy (ex_partial_submission ''testId'')
   \<and> ex_partial_submission ''answers'' = Some (JArr [JNum 0]) \<and> truthy (Some (JArr [JNum 0]))
   \<and> find (\<lambda>t. strict_eq (Some (JStr (t_id t))) (ex_partial_submission ''testId''))
        (tests ex_store) = Some ex_test
   \<and> find (\<lambda>r. r_userId r = userId ex_learner_token
                 \<and> strict_eq (r_testId r) (ex_partial_submission ''testId'')) (results ex_store) = None
   \<and> (\<exists>resp r. submit_test ex_learner_token 1700000000500 ex_partial_submission ex_store
                  = (Inr resp, ex_store\<lparr>results := results ex_store @ [r]\<rparr>)
         \<and> sr_score resp = 1
         \<and> map userAnswer (r_questionResults r) = [Some (JNum 0), None, None, None]
         \<and> map isCorrect (r_questionResults r) = [True, False, False, False])"
proof -
  have h: "truthy (ex_partial_submission ''testId'')"
    "ex_partial_submission ''answers'' = Some (JArr [JNum 0])" "truthy (Some (JArr [JNum 0]))"
    "find (\<lambda>t. strict_eq (Some (JStr (t_id t))) (ex_partial_submission ''testId''))
        (tests ex_store) = Some ex_test"
    "find (\<lambda>r. r_userId r = userId ex_learner_token
                 \<and> strict_eq (r_testId r) (ex_partial_submission ''testId'')) (results ex_store) = None"
    by (simp_all add: ex_partial_submission_def ex_store_def ex_test_def)
  from grading_absent_answer [OF h, of 1700000000500]
  obtain resp r where
    run: "submit_test ex_learner_token 1700000000500 ex_partial_submission ex_store
                  = (Inr resp, ex_store\<lparr>results := results ex_store @ [r]\<rparr>)"
    by blast
  have "sr_score resp = 1
         \<and> map userAnswer (r_questionResults r) = [Some (JNum 0), None, None, None]
         \<and> map isCorrect (r_questionResults r) = [True, False, False, False]"
    using run
    by (auto simp: submit_test_def ex_partial_submission_def ex_store_def ex_test_def
        ex_question_def Let_def)
  with run have "\<exists>resp r. submit_test ex_learner_token 1700000000500 ex_partial_submission ex_store
                  = (Inr resp, ex_store\<lparr>results := results ex_store @ [r]\<rparr>)
         \<and> sr_score resp = 1
         \<and> map userAnswer (r_questionResults r) = [Some (JNum 0), None, None, None]
         \<and> map isCorrect (r_questionResults r) = [True, False, False, False]"
    by (intro exI [of _ resp] exI [of _ r]) simp
  with h show ?thesis by simp
qed

lemma ex_unmarked_store:
  "ex_unmarked_store
     = ex_store\<lparr>tests := [ex_test,
          \<lparr>t_id = ''1700000002000'', t_title = Some (JStr ''Belgisiz test''), t_direction = ''1'',
           t_directionName = JStr ''Dasturlash'',
           t_questions = [[''id'' \<mapsto> JStr ''1'', ''question'' \<mapsto> JStr ''Savol'',
                           ''options'' \<mapsto> JArr [JStr ''A'', JStr ''B'']]]\<rparr>]\<rparr>"
proof -
  have q: "with_id 0 (JObj [(''question'', JStr ''Savol''), (''options'', JArr [JStr ''A'', JStr ''B''])])
             = [''id'' \<mapsto> JStr ''1'', ''question'' \<mapsto> JStr ''Savol'',
                ''options'' \<mapsto> JArr [JStr ''A'', JStr ''B'']]"
    by (rule ext) (simp add: with_id_def map_add_def show_nat_1)
  show ?thesis
    by (simp add: ex_unmarked_store_def create_test_def ex_admin_token_def ex_unmarked_body_def
      ex_store_def test_fields_missing_def no_questions_def enumerate_eq_zip q
      show_nat_1700000002000 Let_def)
qed

text \<open>
  C5 as stated fails for a question stored without a correct-option marker, which
  POST /api/admin/tests accepts: the absent answer and the absent marker are both
  \<^verbatim>\<open>undefined\<close>, so the outcome is marked correct and the score counts it.
\<close>

theorem grading_unmarked_counterexample:
  "fst (submit_test ex_learner_token 1700000002500 ex_unmarked_submission ex_unmarked_store)
     = Inr \<lparr>sr_score = 1, sr_totalQuestions = 1, sr_percentage = JNum 100\<rparr>
   \<and> map userAnswer (r_questionResults (last (results (snd
        (submit_test ex_learner_token 1700000002500 ex_unmarked_submission ex_unmarked_store)))))
       = [None]
   \<and> map isCorrect (r_questionResults (last (results (snd
        (submit_test ex_learner_token 1700000002500 ex_unmarked_submission ex_unmarked_store)))))
       = [True]"
proof -
  have p: "percentage_of (Suc 0) (Suc 0) = Fin 100" using percentage_of_1_1 by simp
  show ?thesis
    by (simp add: ex_unmarked_store submit_test_def ex_unmarked_submission_def ex_store_def
      ex_test_def Let_def p)
qed

section \<open>One result per account and test\<close>

lemma api_step_results: "api_step s s' \<Longrightarrow> \<exists>rs. results s' = results s @ rs"
proof (induction rule: api_step.induct)
  case (step_submit_test s tok now body)
  show ?case
    by (auto simp: submit_test_def Let_def split: option.splits sum.splits prod.splits)
qed (auto simp: register_def send_verification_def verify_code_def create_test_def
       update_test_def delete_test_def add_direction_def delete_direction_def Let_def
     split: option.splits sum.splits)

lemma api_steps_results: "api_step\<^sup>*\<^sup>* s s' \<Longrightarrow> set (results s) \<subseteq> set (results s')"
proof (induction rule: rtranclp_induct)
  case base
  show ?case by simp
next
  case (step y z)
  from api_step_results [OF step.hyps(2)] step.IH show ?case by auto
qed

lemma submit_test_after_result:
  assumes "r \<in> set (results s)" and "r_userId r = userId tok"
      and "strict_eq (r_testId r) (body ''testId'')"
  shows "\<exists>e. submit_test tok now body s = (Inl e, s)"
    and "truthy (body ''testId'') \<Longrightarrow> truthy (body ''answers'')
         \<Longrightarrow> \<exists>t \<in> set (tests s). strict_eq (Some (JStr (t_id t))) (body ''testId'')
         \<Longrightarrow> submit_test tok now body s = (Inl AlreadySubmitted, s)"
proof -
  let ?p = "\<lambda>r. r_userId r = userId tok \<and> strict_eq (r_testId r) (body ''testId'')"
  from find_Some_ex [of r "results s" ?p] assms
  obtain r' where r': "find ?p (results s) = Some r'" by blast
  show "\<exists>e. submit_test tok now body s = (Inl e, s)"
    using r' by (auto simp: submit_test_def Let_def split: option.splits)
  assume "truthy (body ''testId'')" "truthy (body ''answers'')"
     and "\<exists>t \<in> set (tests s). strict_eq (Some (JStr (t_id t))) (body ''testId'')"
  moreover from this(3) find_Some_ex [of _ "tests s" "\<lambda>t. strict_eq (Some (JStr (t_id t))) (body ''testId'')"]
  obtain t' where "find (\<lambda>t. strict_eq (Some (JStr (t_id t))) (body ''testId'')) (tests s) = Some t'"
    by blast
  ultimately show "submit_test tok now body s = (Inl AlreadySubmitted, s)"
    using r' by (simp add: submit_test_def Let_def)
qed

lemma submit_test_Inr_result:
  assumes "submit_test tok now body s = (Inr resp, s')"
  shows "\<exists>r. results s' = results s @ [r] \<and> r_userId r = userId tok
             \<and> r_testId r = body ''testId'' \<and> strict_eq (body ''testId'') (body ''testId'')
             \<and> truthy (body ''testId'')"
proof -
  from assms have tid: "truthy (body ''testId'')"
    by (auto simp: submit_test_def Let_def split: if_splits)
  from assms tid obtain t where
    found: "find (\<lambda>t. strict_eq (Some (JStr (t_id t))) (body ''testId'')) (tests s) = Some t"
    by (cases "find (\<lambda>t. strict_eq (Some (JStr (t_id t))) (body ''testId'')) (tests s)")
       (auto simp: submit_test_def Let_def split: if_splits)
  from find_Some_holds [OF found]
  have "strict_eq (Some (JStr (t_id t))) (body ''testId'')" by simp
  from strict_eq_string [OF this] have refl: "strict_eq (body ''testId'') (body ''testId'')"
    by simp
  from assms have "\<exists>r. results s' = results s @ [r] \<and> r_userId r = userId tok
             \<and> r_testId r = body ''testId''"
    by (auto simp: submit_test_def Let_def split: if_splits option.splits sum.splits prod.splits)
  with tid refl show ?thesis by blast
qed

text \<open>
  C3, as amended. After a successful POST /api/submit-test by an account for a test, and
  after any further requests handled one at a time, every later submission by that
  account for that test fails and writes nothing. It fails with AlreadySubmitted (status
  400) when it carries an \<open>answers\<close> value and the test is still in the catalogue.
\<close>

theorem submit_test_once:
  assumes first: "submit_test tok now body s = (Inr resp, s1)"
      and later: "api_step\<^sup>*\<^sup>* s1 s2"
      and same: "userId tok' = userId tok" "body' ''testId'' = body ''testId''"
  shows "(\<exists>e. submit_test tok' now' body' s2 = (Inl e, s2))
       \<and> (truthy (body' ''answers'')
            \<and> (\<exists>t \<in> set (tests s2). strict_eq (Some (JStr (t_id t))) (body ''testId'')) \<longrightarrow>
          submit_test tok' now' body' s2 = (Inl AlreadySubmitted, s2)
          \<and> status AlreadySubmitted = 400)"
proof -
  from submit_test_Inr_result [OF first] obtain r where
    r: "results s1 = results s @ [r]" "r_userId r = userId tok" "r_testId r = body ''testId''"
    and refl: "strict_eq (body ''testId'') (body ''testId'')"
    and tid: "truthy (body ''testId'')"
    by blast
  from r(1) api_steps_results [OF later] have mem: "r \<in> set (results s2)" by auto
  have u: "r_userId r = userId tok'" using r(2) same(1) by simp
  have m: "strict_eq (r_testId r) (body' ''testId'')" using r(3) refl same(2) by simp
  from submit_test_after_result(1) [where body = body' and now = now', OF mem u m]
       submit_test_after_result(2) [where body = body' and now = now', OF mem u m] tid same(2)
  show ?thesis by auto
qed

lemma ex_store_submitted:
  "\<exists>r. ex_store_submitted = ex_store\<lparr>results := [r]\<rparr> \<and> r_userId r = ''1700000000001''
       \<and> r_testId r = Some (JStr ''1700000000000'')"
proof -
  from submit_test_Inr_result [of ex_learner_token 1700000000500 ex_submission ex_store]
       ex_submission_graded
  show ?thesis
    by (auto simp: ex_store_submitted_def ex_store_def ex_learner_token_def ex_submission_def)
qed

theorem submit_test_once_witness:
  "submit_test ex_learner_token 1700000000500 ex_submission ex_store
     = (Inr \<lparr>sr_score = 3, sr_totalQuestions = 4, sr_percentage = JNum 75\<rparr>, ex_store_submitted)
   \<and> api_step\<^sup>*\<^sup>* ex_store_submitted ex_store_later
   \<and> submit_test ex_learner_token 1700000000900 ex_submission ex_store_later
       = (Inl AlreadySubmitted, ex_store_later)"
proof -
  have first: "submit_test ex_learner_token 1700000000500 ex_submission ex_store
     = (Inr \<lparr>sr_score = 3, sr_totalQuestions = 4, sr_percentage = JNum 75\<rparr>, ex_store_submitted)"
    using ex_submission_graded by (auto simp: ex_store_submitted_def)
  have later: "api_step\<^sup>*\<^sup>* ex_store_submitted ex_store_later"
    unfolding ex_store_later_def by (rule r_into_rtranclp) (rule api_step.step_delete_direction)
  from ex_store_submitted obtain r where r: "ex_store_submitted = ex_store\<lparr>results := [r]\<rparr>"
    by blast
  have t: "tests ex_store_later = [ex_test]"
    by (simp add: ex_store_later_def r delete_direction_def ex_store_def ex_admin_token_def
        ex_admin_def ex_learner_def ex_test_def splice1_def)
  from submit_test_once [OF first later, of ex_learner_token ex_submission 1700000000900] t
  have "submit_test ex_learner_token 1700000000900 ex_submission ex_store_later
       = (Inl AlreadySubmitted, ex_store_later)"
    by (simp add: ex_submission_def ex_test_def)
  with first later show ?thesis by simp
qed

text \<open>
  C3 as stated fails: once an administrator has deleted the test, the later submission
  is answered 404 (test not found); and a later submission without \<open>answers\<close> is refused
  for its missing field.
\<close>

theorem submit_test_after_delete_counterexample:
  "fst (submit_test ex_learner_token 1700000000500 ex_submission ex_store)
     = Inr \<lparr>sr_score = 3, sr_totalQuestions = 4, sr_percentage = JNum 75\<rparr>
   \<and> delete_test ex_admin_token ''1700000000000'' ex_store_submitted = (Inr (), ex_store_deleted)
   \<and> submit_test ex_learner_token 1700000000900 ex_submission ex_store_deleted
       = (Inl TestNotFound, ex_store_deleted)
   \<and> status TestNotFound = 404
   \<and> submit_test ex_learner_token 1700000000900 (ex_submission(''answers'' := None))
        ex_store_submitted = (Inl MissingFields, ex_store_submitted)"
proof -
  from ex_store_submitted obtain r where r: "ex_store_submitted = ex_store\<lparr>results := [r]\<rparr>"
    by blast
  have d: "delete_test ex_admin_token ''1700000000000'' ex_store_submitted
             = (Inr (), ex_store\<lparr>results := [r], tests := []\<rparr>)"
    by (simp add: r delete_test_def ex_store_def ex_admin_token_def ex_test_def splice1_def)
  then have e: "ex_store_deleted = ex_store\<lparr>results := [r], tests := []\<rparr>"
    by (simp add: ex_store_deleted_def)
  have "submit_test ex_learner_token 1700000000900 ex_submission ex_store_deleted
       = (Inl TestNotFound, ex_store_deleted)"
    by (simp add: e submit_test_def ex_submission_def ex_store_def)
  moreover have "submit_test ex_learner_token 1700000000900 (ex_submission(''answers'' := None))
        ex_store_submitted = (Inl MissingFields, ex_store_submitted)"
    by (simp add: submit_test_def ex_submission_def)
  ultimately show ?thesis
    using ex_submission_graded d e by auto
qed

section \<open>Numbering the questions of a test\<close>

lemma with_id_id:
  "with_id index q ''id''
     = (case spread q ''id'' of None \<Rightarrow> Some (JStr (show_nat (index + 1))) | Some v \<Rightarrow> Some v)"
  by (simp add: with_id_def map_add_def split: option.splits)

lemma with_id_other: "k \<noteq> ''id'' \<Longrightarrow> with_id index q k = spread q k"
  by (simp add: with_id_def map_add_def split: option.splits)

lemma number_questions_ids:
  assumes "\<forall>q \<in> set qs. spread q ''id'' = None"
  shows "\<exists>qs'. number_questions (JArr qs) = Inr qs'
           \<and> map (\<lambda>q. q ''id'') qs' = map (\<lambda>i. Some (JStr (show_nat (i + 1)))) [0..<length qs]"
proof -
  have "map (\<lambda>q. q ''id'') (map (\<lambda>(index, q). with_id index q) (enumerate 0 qs))
          = map (\<lambda>i. Some (JStr (show_nat (i + 1)))) [0..<length qs]"
    using assms by (auto intro!: nth_equalityI simp: nth_enumerate_eq with_id_id)
  then show ?thesis by simp
qed





text \<open>
  C2. The claim is that the stored question identifiers are \<open>1\<close> to \<open>N\<close> whatever the client
  sent. The handlers write the client's properties after the generated \<open>id\<close>, so a
  question that carries an \<open>id\<close> keeps it: for the example body, whose first question
  has the \<open>id\<close> 7, both POST /api/admin/tests and PUT /api/admin/tests/:id store the
  identifiers 7 and 2. (\<open>number_questions_ids\<close> above: the identifiers are \<open>1\<close> to \<open>N\<close> when
  no question carries one.)
\<close>

theorem create_test_keeps_client_id:
  "map (\<lambda>q. q ''id'')
      (t_questions (last (tests (snd (create_test ex_admin_token 1700000001000 ex_test_body ex_store)))))
     = [Some (JStr ''7''), Some (JStr ''2'')]
   \<and> map (\<lambda>q. q ''id'')
      (t_questions (hd (tests (snd (update_test ex_admin_token ''1700000000000'' ex_test_body ex_store)))))
     = [Some (JStr ''7''), Some (JStr ''2'')]"
  by (simp add: create_test_def update_test_def ex_admin_token_def ex_test_body_def ex_store_def
      ex_test_def test_fields_missing_def no_questions_def enumerate_eq_zip with_id_id
      show_nat_1 show_nat_2 Let_def)

section \<open>A test without questions\<close>










section \<open>The percentage of a graded submission\<close>

text \<open>
  What holds of every graded submission to a test with at least one question: the
  percentage in the response and in the stored result is an integer within one half of
  \<open>100 * score / totalQuestions\<close>, and it is that value rounded to the nearest integer
  unless the value lies exactly halfway between two integers.
\<close>

lemma submit_test_percentage_near:
  assumes tid: "truthy (body ''testId'')"
      and ans: "body ''answers'' = Some a" "truthy (Some a)"
      and found: "find (\<lambda>t. strict_eq (Some (JStr (t_id t))) (body ''testId'')) (tests s) = Some test"
      and fresh: "find (\<lambda>r. r_userId r = userId tok \<and> strict_eq (r_testId r) (body ''testId''))
                    (results s) = None"
      and some: "t_questions test \<noteq> []" and bound: "length (t_questions test) < 2 ^ 32"
  shows "\<exists>resp r k. submit_test tok now body s = (Inr resp, s\<lparr>results := results s @ [r]\<rparr>)
           \<and> sr_percentage resp = JNum (of_int k) \<and> r_percentage r = JNum (of_int k)
           \<and> sr_score resp = r_score r \<and> sr_totalQuestions resp = length (t_questions test)
           \<and> r_score r = length (filter isCorrect (r_questionResults r))
           \<and> \<bar>of_int k - (100 * of_nat (r_score r) / of_nat (length (t_questions test)) :: rat)\<bar>
               \<le> 1/2
           \<and> (\<not> 2 * length (t_questions test) dvd 200 * r_score r + length (t_questions test) \<longrightarrow>
                k = \<lfloor>(100 * of_nat (r_score r) / of_nat (length (t_questions test)) + 1/2 :: rat)\<rfloor>)"
proof -
  from submit_test_graded [OF tid ans found fresh, of now]
  obtain resp r where
    run: "submit_test tok now body s = (Inr resp, s\<lparr>results := results s @ [r]\<rparr>)"
    and tot: "r_totalQuestions r = length (t_questions test)"
    and len: "length (r_questionResults r) = length (t_questions test)"
    and sc: "r_score r = length (filter isCorrect (r_questionResults r))"
    and pc: "r_percentage r = json_of_num (percentage_of (r_score r) (r_totalQuestions r))"
    and resp: "sr_score resp = r_score r" "sr_totalQuestions resp = r_totalQuestions r"
              "sr_percentage resp = r_percentage r"
    by blast
  have le: "r_score r \<le> length (t_questions test)"
    using sc len length_filter_le [of isCorrect "r_questionResults r"] by simp
  have pos: "0 < length (t_questions test)" using some by simp
  from percentage_of_near [OF pos bound le]
  obtain k where k: "percentage_of (r_score r) (length (t_questions test)) = Fin (of_int k)"
    and near: "\<bar>of_int k - (100 * of_nat (r_score r) / of_nat (length (t_questions test)) :: rat)\<bar>
               \<le> 1/2"
    and exact: "\<not> 2 * length (t_questions test) dvd 200 * r_score r + length (t_questions test) \<longrightarrow>
                k = \<lfloor>(100 * of_nat (r_score r) / of_nat (length (t_questions test)) + 1/2 :: rat)\<rfloor>"
    by blast
  have p: "r_percentage r = JNum (of_int k)" using pc tot k by simp
  show ?thesis
    using run p resp tot sc near exact
    by (intro exI [of _ resp] exI [of _ r] exI [of _ k]) simp
qed

text \<open>
  C4. The claim is that the percentage is \<open>100 * score / totalQuestions\<close> rounded. The
  handler rounds the double \<^verbatim>\<open>(score / length) * 100\<close> instead: for 23 correct answers out
  of 40 the quotient is the double below 0.575, the product the double below 57.5, and
  the response says 57, while 100 * 23 / 40 = 57.5 rounds to 58. No rule for halves
  explains the handler: 1 of 8 (12.5) gives 13, and 29 of 200 (14.5) gives 14.
\<close>

theorem submit_test_23_of_40:
  "fst (submit_test ex_learner_token 1700000000500 ex_long_submission ex_long_store)
     = Inr \<lparr>sr_score = 23, sr_totalQuestions = 40, sr_percentage = JNum 57\<rparr>
   \<and> \<lfloor>(100 * 23 / 40 + 1 / 2 :: rat)\<rfloor> = 58
   \<and> percentage_of 1 8 = Fin 13 \<and> percentage_of 29 200 = Fin 14"
proof -
  let ?a = "JArr (replicate 23 (JNum 0) @ replicate 17 (JNum 1))"
  have h: "truthy (ex_long_submission ''testId'')"
    "ex_long_submission ''answers'' = Some ?a" "truthy (Some ?a)"
    "find (\<lambda>t. strict_eq (Some (JStr (t_id t))) (ex_long_submission ''testId''))
        (tests ex_long_store) = Some ex_long_test"
    "find (\<lambda>r. r_userId r = userId ex_learner_token
                 \<and> strict_eq (r_testId r) (ex_long_submission ''testId''))
        (results ex_long_store) = None"
    by (simp_all add: ex_long_submission_def ex_long_store_def ex_store_def ex_test_def
        ex_long_test_def)
  from submit_test_graded [OF h, of 1700000000500]
  obtain resp r where
    run: "submit_test ex_learner_token 1700000000500 ex_long_submission ex_long_store
            = (Inr resp, ex_long_store\<lparr>results := results ex_long_store @ [r]\<rparr>)"
    and tot: "r_totalQuestions r = length (t_questions ex_long_test)"
    and len: "length (r_questionResults r) = length (t_questions ex_long_test)"
    and sc: "r_score r = length (filter isCorrect (r_questionResults r))"
    and pc: "r_percentage r = json_of_num (percentage_of (r_score r) (r_totalQuestions r))"
    and resp: "sr_score resp = r_score r" "sr_totalQuestions resp = r_totalQuestions r"
              "sr_percentage resp = r_percentage r"
    and each: "\<forall>j < length (t_questions ex_long_test).
                js_index ?a j = Inr (userAnswer (r_questionResults r ! j))
                \<and> isCorrect (r_questionResults r ! j)
                    = strict_eq (userAnswer (r_questionResults r ! j))
                        ((t_questions ex_long_test ! j) ''correct'')"
    by blast
  have l40: "length (t_questions ex_long_test) = 40" by (simp add: ex_long_test_def)
  have c: "isCorrect (r_questionResults r ! j) \<longleftrightarrow> j < 23" if "j < 40" for j
  proof -
    from each that l40 have ix: "js_index ?a j = Inr (userAnswer (r_questionResults r ! j))"
      and ic: "isCorrect (r_questionResults r ! j)
                 = strict_eq (userAnswer (r_questionResults r ! j))
                     ((t_questions ex_long_test ! j) ''correct'')"
      by auto
    have m: "(t_questions ex_long_test ! j) ''correct'' = Some (JNum 0)"
      using that by (simp add: ex_long_test_def ex_long_question_def)
    have u: "userAnswer (r_questionResults r ! j) = Some (if j < 23 then JNum 0 else JNum 1)"
      using ix that by (auto simp: nth_append)
    show ?thesis by (simp add: ic m u)
  qed
  have "{i. i < length (r_questionResults r) \<and> isCorrect (r_questionResults r ! i)} = {..<23}"
    using c len l40 by auto
  then have s23: "r_score r = 23"
    by (simp add: sc length_filter_conv_card)
  have t40: "r_totalQuestions r = 40" using tot l40 by simp
  have p57: "r_percentage r = JNum 57" by (simp add: pc s23 t40 percentage_of_23_40)
  from resp s23 t40 p57
  have "resp = \<lparr>sr_score = 23, sr_totalQuestions = 40, sr_percentage = JNum 57\<rparr>"
    by (cases resp) simp
  moreover have "\<lfloor>(100 * 23 / 40 + 1 / 2 :: rat)\<rfloor> = 58"
    by (rule floor_unique) simp_all
  ultimately show ?thesis using run percentage_of_1_8 percentage_of_29_200 by simp
qed

theorem submit_test_23_of_40_witness:
  "fst (submit_test ex_learner_token 1700000000500 ex_long_submission ex_long_store)
     \<noteq> Inr \<lparr>sr_score = 23, sr_totalQuestions = 40, sr_percentage = JNum 58\<rparr>"
  using submit_test_23_of_40 by simp

end
